theory Spec2Isabelle
  imports Main "HOL-Library.AList"
begin

section \<open>Data model (types.ts)\<close>

text \<open>
  The storage service is generic in the entity it stores: its helpers are typed
  \<^verbatim>\<open>T extends { userId: string }\<close> and the only fields it ever reads are \<^verbatim>\<open>id\<close> and
  \<^verbatim>\<open>userId\<close>. An entity is therefore an extensible record with these two fields; what
  a \<^verbatim>\<open>Note\<close>, \<^verbatim>\<open>Summary\<close>, \<^verbatim>\<open>QueueItem\<close>, \<^verbatim>\<open>RoutineTask\<close> or \<^verbatim>\<open>Quiz\<close> carries beyond them is
  the extension \<open>'a\<close> of the record. The field \<^verbatim>\<open>id\<close> is written \<open>id'\<close> (\<open>id\<close> is the
  identity function of HOL). JavaScript numbers that count minutes, days or
  attempts are integers; an instant (\<^verbatim>\<open>Date\<close>, or the ISO string of one) is its number
  of milliseconds since the epoch.
\<close>

record keyed =
  id' :: string

record owned = keyed +
  userId :: string

datatype EnergyPeak = morning | afternoon | night

datatype DistractionLevel = low | medium | high

datatype UserRole = student | teacher

record UserPreferences = keyed +
  isGuest :: bool
  name :: string
  role :: "UserRole option"
  freeTimeHours :: int
  energyPeak :: EnergyPeak
  goal :: string
  distractionLevel :: DistractionLevel

record UserStats = owned +
  totalTimeStudiedMinutes :: int
  notesCreated :: int
  quizzesTaken :: int
  loginStreak :: int
  lastLoginDate :: int
  dailyActivity :: "string \<rightharpoonup> int"
  highScore :: int

text \<open>
  A stored document is what a read hands back before the unchecked cast
  \<^verbatim>\<open>as UserStats\<close> or \<^verbatim>\<open>as T\<close>: the stats singleton or an entity of a collection.
\<close>

datatype 'a document = StatsDoc UserStats | ItemDoc "'a owned_scheme"

datatype error = RemoteFailure | BadCast

section \<open>Local storage\<close>

abbreviation STATS_KEY :: string where "STATS_KEY \<equiv> ''procastify_stats''"
abbreviation NOTES :: string where "NOTES \<equiv> ''procastify_notes''"
abbreviation SUMMARIES :: string where "SUMMARIES \<equiv> ''procastify_summaries''"
abbreviation QUEUE :: string where "QUEUE \<equiv> ''procastify_queue''"
abbreviation TASKS :: string where "TASKS \<equiv> ''procastify_tasks''"
abbreviation QUIZZES :: string where "QUIZZES \<equiv> ''procastify_quizzes''"

text \<open>
  The browser's \<^verbatim>\<open>localStorage\<close> under the keys of \<^verbatim>\<open>LOCAL_KEYS\<close>, each value already
  parsed: the session pointer, the guest directory, the stats table, and the entity
  tables by key. \<^verbatim>\<open>getLocalDB\<close> reads an unset key as the empty array, so a table
  is a total function into lists.
\<close>

record 'a LocalStorage =
  USER_SESSION :: "string option"
  USERS_DB :: "string \<rightharpoonup> UserPreferences"
  STATS :: "UserStats list"
  tables :: "string \<Rightarrow> 'a owned_scheme list"

definition getLocalDB :: "string \<Rightarrow> 'a LocalStorage \<Rightarrow> 'a owned_scheme list" where
  "getLocalDB key ls = tables ls key"

definition saveLocalDB :: "string \<Rightarrow> 'a owned_scheme list \<Rightarrow> 'a LocalStorage \<Rightarrow> 'a LocalStorage" where
  "saveLocalDB key data ls = ls\<lparr>tables := (tables ls)(key := data)\<rparr>"

definition getLocalUserItems :: "string \<Rightarrow> string \<Rightarrow> 'a LocalStorage \<Rightarrow> 'a owned_scheme list" where
  "getLocalUserItems key uid ls = filter (\<lambda>item. userId item = uid) (getLocalDB key ls)"

definition saveLocalUserItems ::
  "string \<Rightarrow> string \<Rightarrow> 'a owned_scheme list \<Rightarrow> 'a LocalStorage \<Rightarrow> 'a LocalStorage" where
  "saveLocalUserItems key uid items ls =
     (let all = getLocalDB key ls;
          others = filter (\<lambda>i. userId i \<noteq> uid) all
      in saveLocalDB key (others @ items) ls)"

section \<open>Remote document store\<close>

text \<open>
  The path \<^verbatim>\<open>users/{uid}/{collection}/{docId}\<close> of a document is the triple of its
  three variable segments. The store lists its documents by path; \<open>reachable\<close> says
  whether a request to it succeeds (network and permissions).
\<close>

type_synonym path = "string \<times> string \<times> string"

record 'a Firestore =
  docs :: "(path \<times> 'a document) list"
  reachable :: bool

text \<open>
  The client of the remote store (\<^verbatim>\<open>firebase/firestore\<close>) is an external library that the
  service imports. Its operations follow the contract that the specification gives for
  it: document get and set by path, collection-query-all by path, and batched
  multi-document set with all-or-nothing commit. A request that fails rejects and
  leaves the store as it was.
\<close>

text \<open>Modelled from the spec: \<^verbatim>\<open>getDoc\<close> of the library, document get by path.\<close>

definition getDoc :: "path \<Rightarrow> 'a Firestore \<Rightarrow> error + 'a document option" where
  "getDoc p fs = (if reachable fs then Inr (map_of (docs fs) p) else Inl RemoteFailure)"

text \<open>
  Modelled from the spec: \<^verbatim>\<open>setDoc\<close> of the library, document set by path; the document of the
  path is overwritten, or added when there was none.
\<close>

definition setDoc :: "path \<Rightarrow> 'a document \<Rightarrow> 'a Firestore \<Rightarrow> (error + unit) \<times> 'a Firestore" where
  "setDoc p d fs =
     (if reachable fs then (Inr (), fs\<lparr>docs := AList.update p d (docs fs)\<rparr>)
      else (Inl RemoteFailure, fs))"

text \<open>
  Modelled from the spec: \<^verbatim>\<open>getDocs\<close> of the library on a collection, collection-query-all by
  path.
\<close>

definition getDocs :: "string \<times> string \<Rightarrow> 'a Firestore \<Rightarrow> error + 'a document list" where
  "getDocs col fs =
     (if reachable fs
      then Inr (map snd (filter (\<lambda>((u, c, i), d). (u, c) = col) (docs fs)))
      else Inl RemoteFailure)"

text \<open>
  Modelled from the spec: \<^verbatim>\<open>writeBatch\<close>, \<^verbatim>\<open>batch.set\<close> and \<^verbatim>\<open>batch.commit\<close> of the library,
  the batched multi-document set with all-or-nothing commit. The batch collects its sets
  in order; the commit applies all of them, a later set of a path overwriting an earlier
  one, or none.
\<close>

type_synonym 'a writeBatch = "(path \<times> 'a document) list"

definition batch_set :: "path \<Rightarrow> 'a document \<Rightarrow> 'a writeBatch \<Rightarrow> 'a writeBatch" where
  "batch_set p d b = b @ [(p, d)]"

definition applyWrites :: "'a writeBatch \<Rightarrow> (path \<times> 'a document) list \<Rightarrow> (path \<times> 'a document) list" where
  "applyWrites b al = foldl (\<lambda>acc (p, d). AList.update p d acc) al b"

definition commit :: "'a writeBatch \<Rightarrow> 'a Firestore \<Rightarrow> (error + unit) \<times> 'a Firestore" where
  "commit b fs =
     (if reachable fs then (Inr (), fs\<lparr>docs := applyWrites b (docs fs)\<rparr>)
      else (Inl RemoteFailure, fs))"

section \<open>Session state\<close>

record 'a world =
  currentUserId :: "string option"
  isGuestMode :: bool
  localStorage :: "'a LocalStorage"
  db :: "'a Firestore"

text \<open>
  The guard \<^verbatim>\<open>if (!currentUserId)\<close> rejects \<^verbatim>\<open>null\<close> and the empty string alike.
\<close>

definition activeUser :: "'a world \<Rightarrow> string option" where
  "activeUser w =
     (case currentUserId w of None \<Rightarrow> None | Some u \<Rightarrow> if u = [] then None else Some u)"

definition setSession :: "UserPreferences \<Rightarrow> 'a world \<Rightarrow> 'a world" where
  "setSession user w =
     (let w1 = w\<lparr>currentUserId := Some (id' user), isGuestMode := isGuest user\<rparr>;
          ls = localStorage w1
      in if isGuest user
         then w1\<lparr>localStorage :=
                   ls\<lparr>USER_SESSION := Some (id' user),
                      USERS_DB := (USERS_DB ls)(id' user \<mapsto> user)\<rparr>\<rparr>
         else w1\<lparr>localStorage := ls\<lparr>USER_SESSION := None\<rparr>\<rparr>)"

section \<open>Stats aggregator\<close>

definition createEmptyStats :: "string \<Rightarrow> int \<Rightarrow> UserStats" where
  "createEmptyStats uid now =
     \<lparr>id' = ''stats_'' @ uid,
      userId = uid,
      totalTimeStudiedMinutes = 0,
      notesCreated = 0,
      quizzesTaken = 0,
      loginStreak = 0,
      lastLoginDate = now,
      dailyActivity = Map.empty,
      highScore = 0\<rparr>"

definition statsRef :: "string \<Rightarrow> path" where
  "statsRef uid = (uid, ''data'', ''stats'')"

text \<open>\<^verbatim>\<open>Array.prototype.findIndex\<close>; \<open>None\<close> is its \<^verbatim>\<open>-1\<close>.\<close>

fun findIndex :: "('b \<Rightarrow> bool) \<Rightarrow> 'b list \<Rightarrow> nat option" where
  "findIndex P [] = None"
| "findIndex P (x # xs) =
     (if P x then Some 0 else map_option Suc (findIndex P xs))"

text \<open>
  Every operation takes the instant \<open>now\<close> at which it runs: all the readings of the
  clock (\<^verbatim>\<open>new Date()\<close>) within one call return it. An operation returns its outcome,
  \<open>Inl\<close> for a rejected promise, and the state it leaves. The service only ever sets a
  stats record under \<^verbatim>\<open>users/{uid}/data/stats\<close>; were an entity found there, the cast
  \<^verbatim>\<open>as UserStats\<close> would hand on an object without the fields of one, which is the
  outcome \<open>BadCast\<close>.
\<close>

definition getStats :: "int \<Rightarrow> 'a world \<Rightarrow> (error + UserStats) \<times> 'a world" where
  "getStats now w =
     (case activeUser w of
        None \<Rightarrow> (Inr (createEmptyStats ''unknown'' now), w)
      | Some uid \<Rightarrow>
          if isGuestMode w then
            (let all = STATS (localStorage w) in
             case find (\<lambda>s. userId s = uid) all of
               None \<Rightarrow>
                 (let stats = createEmptyStats uid now
                  in (Inr stats, w\<lparr>localStorage := (localStorage w)\<lparr>STATS := all @ [stats]\<rparr>\<rparr>))
             | Some stats \<Rightarrow> (Inr stats, w))
          else
            (case getDoc (statsRef uid) (db w) of
               Inl e \<Rightarrow> (Inl e, w)
             | Inr (Some (StatsDoc s)) \<Rightarrow> (Inr s, w)
             | Inr (Some (ItemDoc i)) \<Rightarrow> (Inl BadCast, w)
             | Inr None \<Rightarrow>
                 (let newStats = createEmptyStats uid now in
                  case setDoc (statsRef uid) (StatsDoc newStats) (db w) of
                    (Inl e, fs) \<Rightarrow> (Inl e, w\<lparr>db := fs\<rparr>)
                  | (Inr u, fs) \<Rightarrow> (Inr newStats, w\<lparr>db := fs\<rparr>))))"

definition updateStats ::
  "(UserStats \<Rightarrow> UserStats) \<Rightarrow> int \<Rightarrow> 'a world \<Rightarrow> (error + UserStats option) \<times> 'a world" where
  "updateStats updater now w =
     (case activeUser w of
        None \<Rightarrow> (Inr None, w)
      | Some uid \<Rightarrow>
          (case getStats now w of
             (Inl e, w1) \<Rightarrow> (Inl e, w1)
           | (Inr current, w1) \<Rightarrow>
               (let updated = updater current in
                if isGuestMode w1 then
                  (let all = STATS (localStorage w1);
                       all' = (case findIndex (\<lambda>s. userId s = uid) all of
                                 Some idx \<Rightarrow> all[idx := updated]
                               | None \<Rightarrow> all @ [updated])
                   in (Inr (Some updated),
                       w1\<lparr>localStorage := (localStorage w1)\<lparr>STATS := all'\<rparr>\<rparr>))
                else
                  (case setDoc (statsRef uid) (StatsDoc updated) (db w1) of
                     (Inl e, fs) \<Rightarrow> (Inl e, w1\<lparr>db := fs\<rparr>)
                   | (Inr u, fs) \<Rightarrow> (Inr (Some updated), w1\<lparr>db := fs\<rparr>)))))"

text \<open>
  \<^verbatim>\<open>toDateString()\<close> names the calendar date of an instant in the local time zone, and
  the service only compares two such names: they are equal exactly when the dates are.
  The date is kept as its day number, \<open>tz t\<close> being the offset of local time from UTC
  at the instant \<open>t\<close>, in milliseconds.
\<close>

definition msPerDay :: int where
  "msPerDay = 86400000"

definition toDateString :: "(int \<Rightarrow> int) \<Rightarrow> int \<Rightarrow> int" where
  "toDateString tz t = (t + tz t) div msPerDay"

text \<open>
  \<^verbatim>\<open>toISOString().split('T')[0]\<close> is the calendar date in UTC, written \<^verbatim>\<open>YYYY-MM-DD\<close>: the
  year, month and day of the day number \<open>t div msPerDay\<close> in the Gregorian calendar, the
  year with four digits, or with a sign and six digits outside 0 to 9999.

  The date of a day number is found by counting from the 1st of March of the year 0: the
  era of 400 years (146097 days), the century in the era (36524 days, the fourth a day
  longer), the cycle of four years in the century (1461 days), the year in the cycle
  (365 days, the fourth a day longer), and the month from the day of that year, March
  being the month 0.
\<close>

definition civilFromDays :: "int \<Rightarrow> int \<times> int \<times> int" where
  "civilFromDays n =
     (let z = n + 719468;
          era = z div 146097;
          doe = z mod 146097;
          c = min 3 (doe div 36524);
          doc = doe - c * 36524;
          q = doc div 1461;
          doq = doc - q * 1461;
          yy = min 3 (doq div 365);
          doy = doq - yy * 365;
          yoe = c * 100 + q * 4 + yy;
          mp = (5 * doy + 2) div 153;
          d = doy - (153 * mp + 2) div 5 + 1;
          m = (if mp < 10 then mp + 3 else mp - 9);
          y = yoe + era * 400 + (if m \<le> 2 then 1 else 0)
      in (y, m, d))"

definition digit :: "nat \<Rightarrow> char" where
  "digit n = ''0123456789'' ! (n mod 10)"

definition pad2 :: "nat \<Rightarrow> string" where
  "pad2 n = [digit (n div 10), digit n]"

definition pad4 :: "nat \<Rightarrow> string" where
  "pad4 n = [digit (n div 1000), digit (n div 100), digit (n div 10), digit n]"

definition pad6 :: "nat \<Rightarrow> string" where
  "pad6 n = [digit (n div 100000), digit (n div 10000), digit (n div 1000), digit (n div 100),
             digit (n div 10), digit n]"

definition isoYear :: "int \<Rightarrow> string" where
  "isoYear y =
     (if 0 \<le> y \<and> y \<le> 9999 then pad4 (nat y)
      else (if y < 0 then ''-'' else ''+'') @ pad6 (nat \<bar>y\<bar>))"

definition isoDate :: "int \<times> int \<times> int \<Rightarrow> string" where
  "isoDate ymd =
     (case ymd of (y, m, d) \<Rightarrow> isoYear y @ ''-'' @ pad2 (nat m) @ ''-'' @ pad2 (nat d))"

definition toISODate :: "int \<Rightarrow> string" where
  "toISODate t = isoDate (civilFromDays (t div msPerDay))"

text \<open>
  The sum of two JavaScript numbers is their exact sum rounded to the nearest double, and
  to the even one of two doubles equally near. For integers: an integer of at most 53 bits
  is a double, and a longer one is rounded to its 53 leading bits. The numbers being
  integers here, \<^verbatim>\<open>Infinity\<close>, which JavaScript gives for a sum beyond the largest double
  (near \<open>1.8e308\<close>), does not occur.
\<close>

fun bitLength :: "nat \<Rightarrow> nat" where
  "bitLength n = (if n = 0 then 0 else Suc (bitLength (n div 2)))"

declare bitLength.simps [simp del]

definition roundToDouble :: "int \<Rightarrow> int" where
  "roundToDouble x =
     (let a = \<bar>x\<bar>; e = bitLength (nat a)
      in if e \<le> 53 then x
         else (let u = 2 ^ (e - 53);
                   q = a div u;
                   r = a mod u;
                   q' = (if 2 * r < u \<or> (2 * r = u \<and> even q) then q else q + 1)
               in sgn x * (q' * u)))"

definition jsAdd :: "int \<Rightarrow> int \<Rightarrow> int" where
  "jsAdd a b = roundToDouble (a + b)"

definition checkLoginStreak :: "(int \<Rightarrow> int) \<Rightarrow> int \<Rightarrow> 'a world \<Rightarrow> (error + unit) \<times> 'a world" where
  "checkLoginStreak tz now w =
     (case activeUser w of
        None \<Rightarrow> (Inr (), w)
      | Some uid \<Rightarrow>
          (case getStats now w of
             (Inl e, w1) \<Rightarrow> (Inl e, w1)
           | (Inr stats, w1) \<Rightarrow>
               (let lastDate = toDateString tz (lastLoginDate stats);
                    today = toDateString tz now
                in if lastDate \<noteq> today then
                     (let yesterday = toDateString tz now - 1;
                          newStreak = (if lastDate = yesterday then loginStreak stats + 1 else 1)
                      in case updateStats
                                (\<lambda>s. s\<lparr>loginStreak := newStreak, lastLoginDate := now\<rparr>) now w1 of
                           (Inl e, w2) \<Rightarrow> (Inl e, w2)
                         | (Inr r, w2) \<Rightarrow> (Inr (), w2))
                   else (Inr (), w1))))"

definition logStudyTime :: "int \<Rightarrow> int \<Rightarrow> 'a world \<Rightarrow> (error + unit) \<times> 'a world" where
  "logStudyTime minutes now w =
     (case activeUser w of
        None \<Rightarrow> (Inr (), w)
      | Some uid \<Rightarrow>
          (let todayKey = toISODate now in
           case updateStats
                  (\<lambda>s. let currentDaily = (case dailyActivity s todayKey of
                                             None \<Rightarrow> 0 | Some v \<Rightarrow> v)
                       in s\<lparr>totalTimeStudiedMinutes := jsAdd (totalTimeStudiedMinutes s) minutes,
                            dailyActivity := (dailyActivity s)(todayKey \<mapsto> jsAdd currentDaily minutes)\<rparr>)
                  now w of
             (Inl e, w1) \<Rightarrow> (Inl e, w1)
           | (Inr r, w1) \<Rightarrow> (Inr (), w1)))"

section \<open>Collection accessors\<close>

text \<open>\<^verbatim>\<open>xs.forEach(f)\<close> for a callback that acts on the state \<open>s\<close>.\<close>

definition forEach :: "'b list \<Rightarrow> ('b \<Rightarrow> 's \<Rightarrow> 's) \<Rightarrow> 's \<Rightarrow> 's" where
  "forEach xs f s = fold f xs s"

text \<open>
  The object \<^verbatim>\<open>map\<close> of \<^verbatim>\<open>loadCollection\<close>, from collection name to storage key. A name it
  does not list reads as \<^verbatim>\<open>undefined\<close>, that is \<open>None\<close>. (The names that every object
  inherits, such as \<^verbatim>\<open>constructor\<close>, read as a function instead; its text is no key under
  which the application stores anything, so that the result is the empty list for them
  too.)
\<close>

definition keyMap :: "(string \<times> string) list" where
  "keyMap = [(''notes'', NOTES), (''summaries'', SUMMARIES), (''queue'', QUEUE),
             (''tasks'', TASKS), (''quizzes'', QUIZZES)]"

definition loadCollection :: "string \<Rightarrow> 'a world \<Rightarrow> error + 'a document list" where
  "loadCollection collectionName w =
     (case activeUser w of
        None \<Rightarrow> Inr []
      | Some uid \<Rightarrow>
          if isGuestMode w then
            (case map_of keyMap collectionName of
               None \<Rightarrow> Inr []
             | Some key \<Rightarrow> Inr (map ItemDoc (getLocalUserItems key uid (localStorage w))))
          else getDocs (uid, collectionName) (db w))"

definition getNotes :: "'a world \<Rightarrow> error + 'a document list" where
  "getNotes w = loadCollection ''notes'' w"

definition saveNotes :: "'a owned_scheme list \<Rightarrow> 'a world \<Rightarrow> (error + unit) \<times> 'a world" where
  "saveNotes notes w =
     (case activeUser w of
        None \<Rightarrow> (Inr (), w)
      | Some uid \<Rightarrow>
          if isGuestMode w then
            (Inr (), w\<lparr>localStorage := saveLocalUserItems NOTES uid notes (localStorage w)\<rparr>)
          else
            (let batch = forEach notes
                           (\<lambda>note. batch_set (uid, ''notes'', id' note) (ItemDoc note)) []
             in case commit batch (db w) of (r, fs) \<Rightarrow> (r, w\<lparr>db := fs\<rparr>)))"

definition getSummaries :: "'a world \<Rightarrow> error + 'a document list" where
  "getSummaries w = loadCollection ''summaries'' w"

definition saveSummaries :: "'a owned_scheme list \<Rightarrow> 'a world \<Rightarrow> (error + unit) \<times> 'a world" where
  "saveSummaries summaries w =
     (case activeUser w of
        None \<Rightarrow> (Inr (), w)
      | Some uid \<Rightarrow>
          if isGuestMode w then
            (Inr (), w\<lparr>localStorage := saveLocalUserItems SUMMARIES uid summaries (localStorage w)\<rparr>)
          else
            (let batch = forEach summaries
                           (\<lambda>summary. batch_set (uid, ''summaries'', id' summary) (ItemDoc summary)) []
             in case commit batch (db w) of (r, fs) \<Rightarrow> (r, w\<lparr>db := fs\<rparr>)))"

section \<open>Migration routine\<close>



section \<open>Notions used in the statements\<close>

text \<open>
  The document in which the service looks for the stats of a user: the first row of
  the local stats table with that \<^verbatim>\<open>userId\<close> in guest mode (\<^verbatim>\<open>all.find\<close>), the document
  \<^verbatim>\<open>users/{uid}/data/stats\<close> otherwise (\<^verbatim>\<open>getDoc\<close>).
\<close>

definition storedStats :: "'a world \<Rightarrow> string \<Rightarrow> 'a document option" where
  "storedStats w uid =
     (if isGuestMode w
      then map_option StatsDoc (find (\<lambda>s. userId s = uid) (STATS (localStorage w)))
      else map_of (docs (db w)) (statsRef uid))"

text \<open>
  The store behind the session answers: local storage always does, the remote store
  when it is reachable. The stats of a user are well stored when moreover the document
  found for them, if any, is a stats record.
\<close>

definition answers :: "'a world \<Rightarrow> bool" where
  "answers w \<longleftrightarrow> isGuestMode w \<or> reachable (db w)"

definition wellStored :: "'a world \<Rightarrow> string \<Rightarrow> bool" where
  "wellStored w uid \<longleftrightarrow> answers w \<and> (\<forall>i. storedStats w uid \<noteq> Some (ItemDoc i))"

text \<open>The record from which an update of the stats starts: the stored one or a fresh one.\<close>

definition curStats :: "'a world \<Rightarrow> string \<Rightarrow> int \<Rightarrow> UserStats" where
  "curStats w uid now =
     (case storedStats w uid of Some (StatsDoc s) \<Rightarrow> s | _ \<Rightarrow> createEmptyStats uid now)"

text \<open>The two updaters, \<^verbatim>\<open>checkLoginStreak\<close>'s with its test and \<^verbatim>\<open>logStudyTime\<close>'s, as functions.\<close>

definition streakUpdate :: "(int \<Rightarrow> int) \<Rightarrow> int \<Rightarrow> UserStats \<Rightarrow> UserStats" where
  "streakUpdate tz now c =
     (if toDateString tz (lastLoginDate c) \<noteq> toDateString tz now
      then c\<lparr>loginStreak :=
               (if toDateString tz (lastLoginDate c) = toDateString tz now - 1
                then loginStreak c + 1 else 1),
             lastLoginDate := now\<rparr>
      else c)"

definition studyUpdate :: "int \<Rightarrow> string \<Rightarrow> UserStats \<Rightarrow> UserStats" where
  "studyUpdate minutes key s =
     s\<lparr>totalTimeStudiedMinutes := jsAdd (totalTimeStudiedMinutes s) minutes,
       dailyActivity := (dailyActivity s)
          (key \<mapsto> jsAdd (case dailyActivity s key of None \<Rightarrow> 0 | Some v \<Rightarrow> v) minutes)\<rparr>"

text \<open>
  The minutes that a record holds for a day, none counting as 0
  (\<^verbatim>\<open>s.dailyActivity[key] || 0\<close>).
\<close>

definition dailyMinutes :: "UserStats \<Rightarrow> string \<Rightarrow> int" where
  "dailyMinutes s key = (case dailyActivity s key of None \<Rightarrow> 0 | Some v \<Rightarrow> v)"

text \<open>
  The integers that JavaScript counts exactly (\<^verbatim>\<open>Number.isSafeInteger\<close>), and the instants
  that a \<^verbatim>\<open>Date\<close> can hold: at most 100 million days from the epoch.
\<close>

definition safeInteger :: "int \<Rightarrow> bool" where
  "safeInteger x \<longleftrightarrow> \<bar>x\<bar> \<le> 9007199254740991"

definition validTime :: "int \<Rightarrow> bool" where
  "validTime t \<longleftrightarrow> \<bar>t\<bar> \<le> 8640000000000000"

text \<open>
  The Gregorian calendar: the leap years, the length of a month, the dates that exist, and
  the day number of a date, counted from the 1st of January 1970.
\<close>

definition leapYear :: "int \<Rightarrow> bool" where
  "leapYear y \<longleftrightarrow> y mod 4 = 0 \<and> (y mod 100 \<noteq> 0 \<or> y mod 400 = 0)"

definition daysInMonth :: "int \<Rightarrow> int \<Rightarrow> int" where
  "daysInMonth y m =
     (if m = 2 then (if leapYear y then 29 else 28)
      else if m = 4 \<or> m = 6 \<or> m = 9 \<or> m = 11 then 30 else 31)"

definition validDate :: "int \<times> int \<times> int \<Rightarrow> bool" where
  "validDate ymd =
     (case ymd of (y, m, d) \<Rightarrow> 1 \<le> m \<and> m \<le> 12 \<and> 1 \<le> d \<and> d \<le> daysInMonth y m)"

definition daysFromCivil :: "int \<times> int \<times> int \<Rightarrow> int" where
  "daysFromCivil ymd =
     (case ymd of (y, m, d) \<Rightarrow>
        (let y' = y - (if m \<le> 2 then 1 else 0);
             era = y' div 400;
             yoe = y' mod 400;
             mp = (if m > 2 then m - 3 else m + 9);
             doy = (153 * mp + 2) div 5 + d - 1;
             doe = yoe * 365 + yoe div 4 - yoe div 100 + doy
         in era * 146097 + doe - 719468))"



section \<open>A sample device\<close>

text \<open>
  A browser in which the guests \<open>g1\<close> and \<open>g2\<close> have worked: three notes and a summary,
  and the stats of \<open>g1\<close>, last logged in on day 20000 after the epoch, the 4th of October
  2024. The local time zone is five and a half hours ahead of UTC.
\<close>

definition zone :: "int \<Rightarrow> int" where
  "zone t = 19800000"

definition day20000 :: int where
  "day20000 = 1728000000000"

definition g1Stats :: UserStats where
  "g1Stats = \<lparr>id' = ''stats_g1'', userId = ''g1'', totalTimeStudiedMinutes = 120,
              notesCreated = 2, quizzesTaken = 1, loginStreak = 3,
              lastLoginDate = day20000, dailyActivity = [''2024-10-04'' \<mapsto> 120], highScore = 7\<rparr>"

definition note1 :: owned where "note1 = \<lparr>id' = ''n1'', userId = ''g1''\<rparr>"
definition note2 :: owned where "note2 = \<lparr>id' = ''n2'', userId = ''g1''\<rparr>"
definition note3 :: owned where "note3 = \<lparr>id' = ''n3'', userId = ''g2''\<rparr>"
definition summary1 :: owned where "summary1 = \<lparr>id' = ''s1'', userId = ''g1''\<rparr>"
definition summary2 :: owned where "summary2 = \<lparr>id' = ''s2'', userId = ''g1''\<rparr>"

definition device :: "unit LocalStorage" where
  "device = \<lparr>USER_SESSION = Some ''g1'', USERS_DB = Map.empty, STATS = [g1Stats],
             tables = (\<lambda>k. if k = NOTES then [note1, note2, note3]
                            else if k = SUMMARIES then [summary1] else [])\<rparr>"

definition guestWorld :: "unit world" where
  "guestWorld = \<lparr>currentUserId = Some ''g1'', isGuestMode = True, localStorage = device,
                 db = \<lparr>docs = [], reachable = True\<rparr>\<rparr>"

definition newGuestWorld :: "unit world" where
  "newGuestWorld = \<lparr>currentUserId = Some ''g3'', isGuestMode = True, localStorage = device,
                    db = \<lparr>docs = [], reachable = True\<rparr>\<rparr>"

definition authWorld :: "unit world" where
  "authWorld = \<lparr>currentUserId = Some ''u1'', isGuestMode = False, localStorage = device,
                db = \<lparr>docs = [], reachable = True\<rparr>\<rparr>"

definition offlineWorld :: "unit world" where
  "offlineWorld = \<lparr>currentUserId = Some ''u1'', isGuestMode = False, localStorage = device,
                   db = \<lparr>docs = [], reachable = False\<rparr>\<rparr>"

definition guest2 :: UserPreferences where
  "guest2 = \<lparr>id' = ''g2'', isGuest = True, name = ''Guest #0002'', role = None,
             freeTimeHours = 2, energyPeak = morning, goal = ''Productivity'',
             distractionLevel = medium\<rparr>"

section \<open>Lists and association lists\<close>

lemma find_snoc:
  "find P (xs @ [e]) = (case find P xs of None \<Rightarrow> (if P e then Some e else None) | Some x \<Rightarrow> Some x)"
  by (induction xs) auto

lemma find_Some_holds: "find P xs = Some s \<Longrightarrow> P s"
  by (induction xs) (auto split: if_splits)

lemma findIndex_found:
  "find P xs = Some s \<Longrightarrow> P x \<Longrightarrow> \<exists>i. findIndex P xs = Some i \<and> find P (xs[i := x]) = Some x"
  by (induction xs) (auto split: if_splits)

lemma update_mem_same: "(k, v) \<in> set (AList.update k v al)"
  by (induction al) auto

lemma update_mem_other:
  "(k', v') \<in> set al \<Longrightarrow> k' \<noteq> k \<Longrightarrow> (k', v') \<in> set (AList.update k v al)"
  by (induction al) auto

lemma forEach_batch_set:
  "forEach xs (\<lambda>x. batch_set (p x) (d x)) b = b @ map (\<lambda>x. (p x, d x)) xs"
  by (induction xs arbitrary: b) (simp_all add: forEach_def batch_set_def)



section \<open>Frame conditions\<close>

lemma activeUser_upd [simp]:
  "activeUser (w\<lparr>localStorage := ls\<rparr>) = activeUser w"
  "activeUser (w\<lparr>db := fs\<rparr>) = activeUser w"
  by (simp_all add: activeUser_def)

lemma answers_upd [simp]:
  "answers (w\<lparr>localStorage := ls\<rparr>) = answers w"
  "reachable fs = reachable (db w) \<Longrightarrow> answers (w\<lparr>db := fs\<rparr>) = answers w"
  by (simp_all add: answers_def)

lemma userId_createEmptyStats [simp]: "userId (createEmptyStats uid now) = uid"
  by (simp add: createEmptyStats_def)

lemma getStats_frame:
  "activeUser (snd (getStats now w)) = activeUser w"
  "isGuestMode (snd (getStats now w)) = isGuestMode w"
  "reachable (db (snd (getStats now w))) = reachable (db w)"
  by (auto simp: getStats_def getDoc_def setDoc_def Let_def
        split: option.splits sum.splits document.splits if_splits)

lemma guest_wellStored: "isGuestMode w \<Longrightarrow> wellStored w uid"
  by (auto simp: wellStored_def answers_def storedStats_def)

lemma stored_wellStored:
  "answers w \<Longrightarrow> storedStats w uid = Some (StatsDoc s) \<Longrightarrow> wellStored w uid"
  by (simp add: wellStored_def)

lemma curStats_stored:
  "storedStats w uid = Some (StatsDoc s) \<Longrightarrow> curStats w uid now = s"
  by (simp add: curStats_def)

lemma curStats_userId_guest:
  "isGuestMode w \<Longrightarrow> userId (curStats w uid now) = uid"
  by (auto simp: curStats_def storedStats_def split: option.splits document.splits
      dest: find_Some_holds)

section \<open>The calendar date of a day\<close>

text \<open>
  The date computed for a day number exists in the Gregorian calendar and has that day
  number; hence different days have different dates.
\<close>

lemma civil_date:
  "\<exists>y m d. civilFromDays n = (y, m, d) \<and> daysFromCivil (y, m, d) = n
      \<and> validDate (y, m, d)
      \<and> (\<bar>n\<bar> \<le> 100000000 \<longrightarrow> \<bar>y\<bar> < 1000000)"
proof -
  define z where "z = n + 719468"
  define era where "era = z div 146097"
  define doe where "doe = z mod 146097"
  define c where "c = min 3 (doe div 36524)"
  define doc where "doc = doe - c * 36524"
  define q where "q = doc div 1461"
  define doq where "doq = doc - q * 1461"
  define yy where "yy = min 3 (doq div 365)"
  define doy where "doy = doq - yy * 365"
  define yoe where "yoe = c * 100 + q * 4 + yy"
  define mp where "mp = (5 * doy + 2) div 153"
  define d where "d = doy - (153 * mp + 2) div 5 + 1"
  define m where "m = (if mp < 10 then mp + 3 else mp - 9)"
  define y where "y = yoe + era * 400 + (if m \<le> 2 then 1 else 0)"
  have civ: "civilFromDays n = (y, m, d)"
    unfolding civilFromDays_def Let_def
    by (simp only: z_def era_def doe_def c_def doc_def q_def doq_def yy_def doy_def yoe_def
        mp_def d_def m_def y_def)
  have doe: "0 \<le> doe" "doe < 146097"
    by (simp_all add: doe_def)
  have c: "0 \<le> c" "c \<le> 3"
    using doe by (simp_all add: c_def)
  have doc: "0 \<le> doc" "doc \<le> 36524"
    using doe unfolding doc_def c_def by (simp_all add: min_def) arith+
  have q: "0 \<le> q" "q \<le> 24"
    using doc unfolding q_def by arith+
  have doq: "0 \<le> doq" "doq \<le> 1460"
    using doc unfolding doq_def q_def by arith+
  have yy: "0 \<le> yy" "yy \<le> 3"
    using doq by (simp_all add: yy_def)
  have doy: "0 \<le> doy" "doy \<le> 365"
    using doq unfolding doy_def yy_def by (simp_all add: min_def) arith+
  have mp: "0 \<le> mp" "mp \<le> 11"
    using doy unfolding mp_def by arith+
  have m: "m \<le> 2 \<longleftrightarrow> 10 \<le> mp" "(if m > 2 then m - 3 else m + 9) = mp"
    using mp by (auto simp: m_def)
  have yoe: "0 \<le> yoe" "yoe \<le> 399"
    using c q yy by (simp_all add: yoe_def)
  have y': "y - (if m \<le> 2 then 1 else 0) = yoe + era * 400"
    by (simp add: y_def)
  have e: "(yoe + era * 400) div 400 = era" "(yoe + era * 400) mod 400 = yoe"
    using yoe by simp_all
  have d4: "yoe div 4 = 25 * c + q" and d100: "yoe div 100 = c"
    using yy q unfolding yoe_def by arith+
  have dd: "(153 * mp + 2) div 5 + d - 1 = doy"
    by (simp add: d_def)
  have "daysFromCivil (y, m, d) = era * 146097 + (yoe * 365 + yoe div 4 - yoe div 100 + doy) - 719468"
    unfolding daysFromCivil_def Let_def prod.case y' e m(2) dd ..
  also have "yoe * 365 + yoe div 4 - yoe div 100 + doy = doe"
    unfolding d4 d100 by (simp add: yoe_def doy_def doq_def doc_def)
  also have "era * 146097 + doe - 719468 = n"
    by (simp add: era_def doe_def z_def)
  finally have inv: "daysFromCivil (y, m, d) = n" .
  have mr: "1 \<le> m" "m \<le> 12"
    using mp by (auto simp: m_def)
  have dr: "1 \<le> d" "d \<le> 31"
    using doy unfolding d_def mp_def by arith+
  have yr: "\<bar>n\<bar> \<le> 100000000 \<longrightarrow> \<bar>y\<bar> < 1000000"
  proof
    assume "\<bar>n\<bar> \<le> 100000000"
    then have "- 700 \<le> era" "era \<le> 700"
      unfolding era_def z_def by arith+
    then show "\<bar>y\<bar> < 1000000"
      using yoe by (auto simp: y_def)
  qed
  have mpk: "mp = 0 \<or> mp = 1 \<or> mp = 2 \<or> mp = 3 \<or> mp = 4 \<or> mp = 5 \<or> mp = 6 \<or> mp = 7
      \<or> mp = 8 \<or> mp = 9 \<or> mp = 10 \<or> mp = 11"
    using mp by arith
  have "5 * doy + 2 = 153 * mp + (5 * doy + 2) mod 153"
    by (simp add: mp_def)
  moreover have "(5 * doy + 2) mod 153 < 153"
    by simp
  ultimately have ub: "5 * doy + 2 < 153 * mp + 153"
    by linarith
  have long: "d \<le> 31" if "mp = 0 \<or> mp = 2 \<or> mp = 4 \<or> mp = 5 \<or> mp = 7 \<or> mp = 9 \<or> mp = 10"
    using that ub by (auto simp: d_def)
  have short: "d \<le> 30" if "mp = 1 \<or> mp = 3 \<or> mp = 6 \<or> mp = 8"
    using that ub by (auto simp: d_def)
  have feb: "d = doy - 336" if "mp = 11"
    using that by (simp add: d_def)
  have leap: "leapYear y" if f: "mp = 11" and l: "doy = 365"
  proof -
    have yy3: "yy = 3" and doq3: "doq = 1460"
      using l doq unfolding doy_def yy_def by (simp_all add: min_def split: if_splits)
    have yv: "y = (c * 100 + q * 4 + 4) + era * 400"
      using f yy3 by (simp add: y_def m_def yoe_def)
    have "y = 4 * (c * 25 + q + 1 + era * 100)"
      unfolding yv by simp
    then have y4: "y mod 4 = 0"
      by (simp only: mod_mult_self1_is_0)
    have "y mod 100 \<noteq> 0 \<or> y mod 400 = 0"
    proof (cases "q = 24")
      case True
      then have "doc = 36524"
        using doq3 by (simp add: doq_def)
      then have "c = 3"
        using doe unfolding doc_def c_def by (simp add: min_def split: if_splits)
      then have "y = 400 * (era + 1)"
        unfolding yv using True by simp
      then have "y mod 400 = 0"
        by (simp only: mod_mult_self1_is_0)
      then show ?thesis ..
    next
      case False
      then have "q * 4 + 4 < 100" "0 < q * 4 + 4"
        using q by simp_all
      moreover have "y = (q * 4 + 4) + 100 * (c + era * 4)"
        unfolding yv by simp
      then have "y mod 100 = (q * 4 + 4) mod 100"
        by (simp only: mod_mult_self2)
      ultimately have "y mod 100 = q * 4 + 4"
        by simp
      then show ?thesis
        using q by simp
    qed
    then show ?thesis
      using y4 by (simp add: leapYear_def)
  qed
  have dm: "d \<le> daysInMonth y m"
  proof -
    consider "mp = 0 \<or> mp = 2 \<or> mp = 4 \<or> mp = 5 \<or> mp = 7 \<or> mp = 9 \<or> mp = 10"
      | "mp = 1 \<or> mp = 3 \<or> mp = 6 \<or> mp = 8" | "mp = 11"
      using mpk by blast
    then show ?thesis
    proof cases
      case 1
      then show ?thesis
        using long by (auto simp: m_def daysInMonth_def)
    next
      case 2
      then show ?thesis
        using short by (auto simp: m_def daysInMonth_def)
    next
      case 3
      then have "d \<le> 28 \<or> doy = 365"
        using feb doy by auto
      then show ?thesis
        using 3 leap feb by (auto simp: m_def daysInMonth_def)
    qed
  qed
  have vd: "validDate (y, m, d)"
    using mr dr dm by (simp add: validDate_def)
  show ?thesis
    using civ inv vd yr by blast
qed

lemma civil_roundtrip: "daysFromCivil (civilFromDays n) = n"
  using civil_date [of n] by auto

lemma civilFromDays_inj:
  assumes "civilFromDays a = civilFromDays b"
  shows "a = b"
proof -
  have "a = daysFromCivil (civilFromDays a)"
    by (simp only: civil_roundtrip)
  also have "\<dots> = daysFromCivil (civilFromDays b)"
    by (simp only: assms)
  also have "\<dots> = b"
    by (rule civil_roundtrip)
  finally show ?thesis .
qed

section \<open>The date as a string\<close>

text \<open>
  Numbers of at most two, four and six digits are read back from their digits, and a year
  from its four digits or its sign and six digits: different dates are written differently.
\<close>

lemma below_ten: "k < 10 \<Longrightarrow> k \<in> {0, 1, 2, 3, 4, 5, 6, 7, 8, 9 :: nat}"
  by auto

lemma of_char_digit: "of_char (digit n) = (48 + n mod 10 :: nat)"
proof -
  have "n mod 10 \<in> {0, 1, 2, 3, 4, 5, 6, 7, 8, 9 :: nat}"
    by (rule below_ten) simp
  then show ?thesis
    unfolding digit_def by (elim insertE emptyE) simp_all
qed

lemma digit_eq_iff: "digit a = digit b \<longleftrightarrow> a mod 10 = b mod 10"
proof
  assume "digit a = digit b"
  then have "(of_char (digit a) :: nat) = of_char (digit b)" by simp
  then show "a mod 10 = b mod 10" by (simp add: of_char_digit)
next
  assume "a mod 10 = b mod 10"
  then show "digit a = digit b" by (simp add: digit_def)
qed

lemma digit_not_sign: "digit n \<noteq> CHR ''-''" "digit n \<noteq> CHR ''+''"
proof -
  have "(of_char (digit n) :: nat) \<noteq> of_char CHR ''-''" "(of_char (digit n) :: nat) \<noteq> of_char CHR ''+''"
    by (simp_all add: of_char_digit)
  then show "digit n \<noteq> CHR ''-''" "digit n \<noteq> CHR ''+''" by auto
qed

lemma same_number:
  fixes a b :: nat
  assumes "a div 10 = b div 10" "a mod 10 = b mod 10"
  shows "a = b"
proof -
  have "a = 10 * (a div 10) + a mod 10" by simp
  also have "\<dots> = 10 * (b div 10) + b mod 10" by (simp only: assms)
  also have "\<dots> = b" by simp
  finally show ?thesis .
qed

lemma pad2_inj:
  assumes "a < 100" "b < 100" "pad2 a = pad2 b"
  shows "a = b"
proof -
  have d: "a div 10 mod 10 = b div 10 mod 10" "a mod 10 = b mod 10"
    using assms(3) by (simp_all add: pad2_def digit_eq_iff)
  have "a div 10 < 10" "b div 10 < 10"
    using assms(1,2) by simp_all
  then have "a div 10 = b div 10"
    using d(1) by simp
  then show ?thesis
    using d(2) by (rule same_number)
qed

lemma pad4_inj:
  assumes "a < 10000" "b < 10000" "pad4 a = pad4 b"
  shows "a = b"
proof -
  have d: "a div 1000 mod 10 = b div 1000 mod 10" "a div 100 mod 10 = b div 100 mod 10"
    "a div 10 mod 10 = b div 10 mod 10" "a mod 10 = b mod 10"
    using assms(3) by (simp_all add: pad4_def digit_eq_iff)
  have "a div 1000 < 10" "b div 1000 < 10"
    using assms(1,2) by simp_all
  then have e3: "a div 1000 = b div 1000"
    using d(1) by simp
  have s: "x div 100 div 10 = x div 1000" "x div 10 div 10 = x div 100" for x :: nat
    by (simp_all add: div_mult2_eq [symmetric])
  have e2: "a div 100 = b div 100"
    by (rule same_number) (simp_all add: s e3 d)
  have e1: "a div 10 = b div 10"
    by (rule same_number) (simp_all add: s e2 d)
  show ?thesis
    using e1 d(4) by (rule same_number)
qed

lemma pad6_inj:
  assumes "a < 1000000" "b < 1000000" "pad6 a = pad6 b"
  shows "a = b"
proof -
  have d: "a div 100000 mod 10 = b div 100000 mod 10" "a div 10000 mod 10 = b div 10000 mod 10"
    "a div 1000 mod 10 = b div 1000 mod 10" "a div 100 mod 10 = b div 100 mod 10"
    "a div 10 mod 10 = b div 10 mod 10" "a mod 10 = b mod 10"
    using assms(3) by (simp_all add: pad6_def digit_eq_iff)
  have "a div 100000 < 10" "b div 100000 < 10"
    using assms(1,2) by simp_all
  then have e5: "a div 100000 = b div 100000"
    using d(1) by simp
  have s: "x div 10000 div 10 = x div 100000" "x div 1000 div 10 = x div 10000"
    "x div 100 div 10 = x div 1000" "x div 10 div 10 = x div 100" for x :: nat
    by (simp_all add: div_mult2_eq [symmetric])
  have e4: "a div 10000 = b div 10000"
    by (rule same_number) (simp_all add: s e5 d)
  have e3: "a div 1000 = b div 1000"
    by (rule same_number) (simp_all add: s e4 d)
  have e2: "a div 100 = b div 100"
    by (rule same_number) (simp_all add: s e3 d)
  have e1: "a div 10 = b div 10"
    by (rule same_number) (simp_all add: s e2 d)
  show ?thesis
    using e1 d(6) by (rule same_number)
qed

lemma isoYear_cases:
  "(0 \<le> y \<and> y \<le> 9999 \<and> isoYear y = pad4 (nat y))
 \<or> (y < 0 \<and> isoYear y = CHR ''-'' # pad6 (nat \<bar>y\<bar>))
 \<or> (9999 < y \<and> isoYear y = CHR ''+'' # pad6 (nat \<bar>y\<bar>))"
  by (auto simp: isoYear_def)

lemma isoYear_inj:
  assumes "\<bar>y\<bar> < 1000000" "\<bar>y'\<bar> < 1000000"
    and eq: "isoYear y @ CHR ''-'' # r = isoYear y' @ CHR ''-'' # r'"
  shows "y = y' \<and> r = r'"
proof -
  have four: "length (pad4 n) = 4" and six: "length (pad6 n) = 6" for n
    by (simp_all add: pad4_def pad6_def)
  have hd4: "hd (pad4 n @ u) = digit (n div 1000)" for n u
    by (simp add: pad4_def)
  consider (short) "0 \<le> y" "y \<le> 9999" "isoYear y = pad4 (nat y)"
    | (neg) "y < 0" "isoYear y = CHR ''-'' # pad6 (nat \<bar>y\<bar>)"
    | (big) "9999 < y" "isoYear y = CHR ''+'' # pad6 (nat \<bar>y\<bar>)"
    using isoYear_cases [of y] by blast
  then show ?thesis
  proof cases
    case short
    consider (short') "0 \<le> y'" "y' \<le> 9999" "isoYear y' = pad4 (nat y')"
      | (long') s where "s = CHR ''-'' \<or> s = CHR ''+''" "isoYear y' = s # pad6 (nat \<bar>y'\<bar>)"
      using isoYear_cases [of y'] by blast
    then show ?thesis
    proof cases
      case short'
      have "pad4 (nat y) = pad4 (nat y') \<and> CHR ''-'' # r = CHR ''-'' # r'"
        using eq unfolding short(3) short'(3)
        by (subst (asm) append_eq_append_conv) (simp_all add: four)
      then have p: "pad4 (nat y) = pad4 (nat y')" and rr: "r = r'"
        by simp_all
      have "nat y < 10000" "nat y' < 10000"
        using short(2) short'(2) by simp_all
      then have "nat y = nat y'"
        using p by (rule pad4_inj)
      then show ?thesis
        using short(1) short'(1) rr by simp
    next
      case long'
      have "hd (isoYear y @ CHR ''-'' # r) = hd (isoYear y' @ CHR ''-'' # r')"
        by (simp only: eq)
      then have "digit (nat y div 1000) = s"
        unfolding short(3) long'(2) hd4 by simp
      then show ?thesis
        using long'(1) digit_not_sign [of "nat y div 1000"] by auto
    qed
  next
    case neg
    consider (short') "0 \<le> y'" "y' \<le> 9999" "isoYear y' = pad4 (nat y')"
      | (neg') "y' < 0" "isoYear y' = CHR ''-'' # pad6 (nat \<bar>y'\<bar>)"
      | (big') "9999 < y'" "isoYear y' = CHR ''+'' # pad6 (nat \<bar>y'\<bar>)"
      using isoYear_cases [of y'] by blast
    then show ?thesis
    proof cases
      case short'
      have "hd (isoYear y @ CHR ''-'' # r) = hd (isoYear y' @ CHR ''-'' # r')"
        by (simp only: eq)
      then have "CHR ''-'' = digit (nat y' div 1000)"
        unfolding neg(2) short'(3) hd4 by simp
      then show ?thesis
        using digit_not_sign [of "nat y' div 1000"] by auto
    next
      case neg'
      have "pad6 (nat \<bar>y\<bar>) = pad6 (nat \<bar>y'\<bar>) \<and> CHR ''-'' # r = CHR ''-'' # r'"
        using eq unfolding neg(2) neg'(2) list.inject append_Cons
        by (subst (asm) append_eq_append_conv) (simp_all add: six)
      then have p: "pad6 (nat \<bar>y\<bar>) = pad6 (nat \<bar>y'\<bar>)" and rr: "r = r'"
        by simp_all
      have "nat \<bar>y\<bar> < 1000000" "nat \<bar>y'\<bar> < 1000000"
        using assms(1,2) by simp_all
      then have "nat \<bar>y\<bar> = nat \<bar>y'\<bar>"
        using p by (rule pad6_inj)
      then show ?thesis
        using neg(1) neg'(1) rr by simp
    next
      case big'
      show ?thesis
        using eq unfolding neg(2) big'(2) by simp
    qed
  next
    case big
    consider (short') "0 \<le> y'" "y' \<le> 9999" "isoYear y' = pad4 (nat y')"
      | (neg') "y' < 0" "isoYear y' = CHR ''-'' # pad6 (nat \<bar>y'\<bar>)"
      | (big') "9999 < y'" "isoYear y' = CHR ''+'' # pad6 (nat \<bar>y'\<bar>)"
      using isoYear_cases [of y'] by blast
    then show ?thesis
    proof cases
      case short'
      have "hd (isoYear y @ CHR ''-'' # r) = hd (isoYear y' @ CHR ''-'' # r')"
        by (simp only: eq)
      then have "CHR ''+'' = digit (nat y' div 1000)"
        unfolding big(2) short'(3) hd4 by simp
      then show ?thesis
        using digit_not_sign [of "nat y' div 1000"] by auto
    next
      case neg'
      show ?thesis
        using eq unfolding big(2) neg'(2) by simp
    next
      case big'
      have "pad6 (nat \<bar>y\<bar>) = pad6 (nat \<bar>y'\<bar>) \<and> CHR ''-'' # r = CHR ''-'' # r'"
        using eq unfolding big(2) big'(2) list.inject append_Cons
        by (subst (asm) append_eq_append_conv) (simp_all add: six)
      then have p: "pad6 (nat \<bar>y\<bar>) = pad6 (nat \<bar>y'\<bar>)" and rr: "r = r'"
        by simp_all
      have "nat \<bar>y\<bar> < 1000000" "nat \<bar>y'\<bar> < 1000000"
        using assms(1,2) by simp_all
      then have "nat \<bar>y\<bar> = nat \<bar>y'\<bar>"
        using p by (rule pad6_inj)
      then show ?thesis
        using big(1) big'(1) rr by simp
    qed
  qed
qed

lemma isoDate_inj:
  assumes "\<bar>y\<bar> < 1000000" "0 \<le> m" "m < 100" "0 \<le> d" "d < 100"
    and "\<bar>y'\<bar> < 1000000" "0 \<le> m'" "m' < 100" "0 \<le> d'" "d' < 100"
    and eq: "isoDate (y, m, d) = isoDate (y', m', d')"
  shows "y = y' \<and> m = m' \<and> d = d'"
proof -
  have "isoYear y @ CHR ''-'' # (pad2 (nat m) @ CHR ''-'' # pad2 (nat d))
      = isoYear y' @ CHR ''-'' # (pad2 (nat m') @ CHR ''-'' # pad2 (nat d'))"
    using eq by (simp add: isoDate_def)
  then have y: "y = y'"
    and r: "pad2 (nat m) @ CHR ''-'' # pad2 (nat d) = pad2 (nat m') @ CHR ''-'' # pad2 (nat d')"
    using isoYear_inj [OF assms(1) assms(6)] by blast+
  have "pad2 (nat m) = pad2 (nat m') \<and> CHR ''-'' # pad2 (nat d) = CHR ''-'' # pad2 (nat d')"
    using r by (subst (asm) append_eq_append_conv) (simp_all add: pad2_def)
  then have pm: "pad2 (nat m) = pad2 (nat m')" and pd: "pad2 (nat d) = pad2 (nat d')"
    by simp_all
  have "nat m < 100" "nat m' < 100"
    using assms(3,8) by simp_all
  then have nm: "nat m = nat m'"
    using pm by (rule pad2_inj)
  have "nat d < 100" "nat d' < 100"
    using assms(5,10) by simp_all
  then have nd: "nat d = nat d'"
    using pd by (rule pad2_inj)
  have "m = m'" "d = d'"
    using nm nd assms(2,4,7,9) eq_nat_nat_iff by blast+
  then show ?thesis
    using y by simp
qed

text \<open>
  The key of \<^verbatim>\<open>logStudyTime\<close>: the date of the UTC day of the call, the same for two
  instants of one UTC day and, among the instants that a \<^verbatim>\<open>Date\<close> can hold, for no others.
\<close>

lemma daysInMonth_le: "daysInMonth y m \<le> 31"
  by (simp add: daysInMonth_def)

lemma validTime_day: "validTime t \<Longrightarrow> \<bar>t div msPerDay\<bar> \<le> 100000000"
  unfolding validTime_def msPerDay_def by arith

lemma toISODate_date:
  "\<exists>y m d. validDate (y, m, d) \<and> daysFromCivil (y, m, d) = t div msPerDay
     \<and> toISODate t = isoYear y @ ''-'' @ pad2 (nat m) @ ''-'' @ pad2 (nat d)"
proof -
  obtain y m d where "civilFromDays (t div msPerDay) = (y, m, d)"
    "daysFromCivil (y, m, d) = t div msPerDay" "validDate (y, m, d)"
    using civil_date [of "t div msPerDay"] by blast
  then show ?thesis
    by (auto simp: toISODate_def isoDate_def)
qed

lemma toISODate_same_day: "t div msPerDay = t' div msPerDay \<Longrightarrow> toISODate t = toISODate t'"
  by (simp add: toISODate_def)

lemma toISODate_inj:
  assumes "validTime t" "validTime t'" "toISODate t = toISODate t'"
  shows "t div msPerDay = t' div msPerDay"
proof -
  obtain y m d where c: "civilFromDays (t div msPerDay) = (y, m, d)"
    and v: "validDate (y, m, d)" and r: "\<bar>y\<bar> < 1000000"
    using civil_date [of "t div msPerDay"] validTime_day [OF assms(1)] by blast
  obtain y' m' d' where c': "civilFromDays (t' div msPerDay) = (y', m', d')"
    and v': "validDate (y', m', d')" and r': "\<bar>y'\<bar> < 1000000"
    using civil_date [of "t' div msPerDay"] validTime_day [OF assms(2)] by blast
  have b: "0 \<le> m" "m < 100" "0 \<le> d" "d < 100"
    using v daysInMonth_le [of y m] by (simp_all add: validDate_def)
  have b': "0 \<le> m'" "m' < 100" "0 \<le> d'" "d' < 100"
    using v' daysInMonth_le [of y' m'] by (simp_all add: validDate_def)
  have "isoDate (y, m, d) = isoDate (y', m', d')"
    using assms(3) by (simp add: toISODate_def c c')
  then have "y = y' \<and> m = m' \<and> d = d'"
    by (rule isoDate_inj [OF r b r' b'])
  then have "civilFromDays (t div msPerDay) = civilFromDays (t' div msPerDay)"
    by (simp add: c c')
  then show ?thesis
    by (rule civilFromDays_inj)
qed

section \<open>Sums of numbers\<close>

text \<open>Sums of at most 53 bits, those of the safe integers, are exact.\<close>

lemma bitLength_le: "n < 2 ^ k \<Longrightarrow> bitLength n \<le> k"
proof (induction k arbitrary: n)
  case 0
  then show ?case
    by (simp add: bitLength.simps)
next
  case (Suc k)
  show ?case
  proof (cases "n = 0")
    case True
    then show ?thesis
      by (simp add: bitLength.simps)
  next
    case False
    have "n div 2 < 2 ^ k"
      using Suc.prems by simp
    then have "bitLength (n div 2) \<le> k"
      by (rule Suc.IH)
    then show ?thesis
      using False by (subst bitLength.simps) simp
  qed
qed

lemma roundToDouble_exact: "safeInteger x \<Longrightarrow> roundToDouble x = x"
proof -
  assume "safeInteger x"
  then have "nat \<bar>x\<bar> < 2 ^ 53"
    by (simp add: safeInteger_def)
  then have "bitLength (nat \<bar>x\<bar>) \<le> 53"
    by (rule bitLength_le)
  then show ?thesis
    by (simp add: roundToDouble_def Let_def)
qed

lemma jsAdd_exact: "safeInteger (a + b) \<Longrightarrow> jsAdd a b = a + b"
  by (simp add: jsAdd_def roundToDouble_exact)


lemma bitLength_eq: "2 ^ k \<le> n \<Longrightarrow> n < 2 ^ Suc k \<Longrightarrow> bitLength n = Suc k"
proof (induction k arbitrary: n)
  case 0
  then have "n = 1"
    by simp
  then show ?case
    by (simp add: bitLength.simps [of "Suc 0"] bitLength.simps [of 0])
next
  case (Suc k)
  have "2 ^ k \<le> n div 2" "n div 2 < 2 ^ Suc k"
    using Suc.prems by simp_all
  then have "bitLength (n div 2) = Suc k"
    by (rule Suc.IH)
  moreover have "(0::nat) < 2 ^ Suc k"
    by simp
  then have "n \<noteq> 0"
    using Suc.prems(1) by linarith
  ultimately show ?case
    by (subst bitLength.simps) simp
qed

text \<open>Beyond 53 bits a sum is rounded: \<open>2\<^sup>5\<^sup>3 + 1\<close> to \<open>2\<^sup>5\<^sup>3\<close>, and \<open>2\<^sup>5\<^sup>3 + 3\<close> to \<open>2\<^sup>5\<^sup>3 + 4\<close>.\<close>

lemma jsAdd_rounded:
  "jsAdd 9007199254740992 1 = 9007199254740992"
  "jsAdd 9007199254740992 3 = 9007199254740996"
proof -
  have "bitLength (nat 9007199254740993) = Suc 53" "bitLength (nat 9007199254740995) = Suc 53"
    by (rule bitLength_eq; simp)+
  then show "jsAdd 9007199254740992 1 = 9007199254740992"
    "jsAdd 9007199254740992 3 = 9007199254740996"
    by (simp_all add: jsAdd_def roundToDouble_def)
qed

section \<open>Reading and updating the stats\<close>

lemma getStats_found:
  assumes "activeUser w = Some uid" "storedStats w uid = Some (StatsDoc s)" "answers w"
  shows "getStats now w = (Inr s, w)"
  using assms
  by (auto simp: getStats_def storedStats_def answers_def getDoc_def split: if_splits)

lemma getStats_create:
  assumes "activeUser w = Some uid" "storedStats w uid = None" "answers w"
  shows "fst (getStats now w) = Inr (createEmptyStats uid now)"
    and "storedStats (snd (getStats now w)) uid = Some (StatsDoc (createEmptyStats uid now))"
    and "activeUser (snd (getStats now w)) = Some uid"
    and "isGuestMode (snd (getStats now w)) = isGuestMode w"
    and "answers (snd (getStats now w))"
  using assms
  by (auto simp: getStats_def storedStats_def answers_def getDoc_def setDoc_def Let_def
        find_snoc update_conv' split: if_splits)

lemma getStats_fail:
  assumes "activeUser w = Some uid" "\<not> wellStored w uid"
  shows "\<exists>e. getStats now w = (Inl e, w)"
  using assms
  by (auto simp: getStats_def wellStored_def answers_def storedStats_def getDoc_def
      split: option.splits document.splits if_splits)

lemma getStats_cur:
  assumes "activeUser w = Some uid" "wellStored w uid"
  shows "fst (getStats now w) = Inr (curStats w uid now)"
    and "storedStats (snd (getStats now w)) uid = Some (StatsDoc (curStats w uid now))"
    and "answers (snd (getStats now w))"
proof -
  consider "storedStats w uid = None" | s where "storedStats w uid = Some (StatsDoc s)"
  proof (cases "storedStats w uid")
    case None
    then show ?thesis using that by simp
  next
    case (Some d)
    then show ?thesis using that assms(2) by (cases d) (auto simp: wellStored_def)
  qed
  then have "fst (getStats now w) = Inr (curStats w uid now)
     \<and> storedStats (snd (getStats now w)) uid = Some (StatsDoc (curStats w uid now))
     \<and> answers (snd (getStats now w))"
  proof cases
    case 1
    then show ?thesis
      using assms getStats_create [of w uid now] by (simp add: curStats_def wellStored_def)
  next
    case 2
    then show ?thesis
      using assms getStats_found [of w uid s now] by (simp add: curStats_def wellStored_def)
  qed
  then show "fst (getStats now w) = Inr (curStats w uid now)"
    and "storedStats (snd (getStats now w)) uid = Some (StatsDoc (curStats w uid now))"
    and "answers (snd (getStats now w))" by simp_all
qed

text \<open>
  An update that keeps the owner of the record stores the updated record, in either
  mode: the read-modify-write of \<^verbatim>\<open>updateStats\<close>.
\<close>

lemma updateStats_store:
  assumes act: "activeUser w = Some uid" and ok: "wellStored w uid"
    and keep: "userId (f (curStats w uid now)) = userId (curStats w uid now)"
  shows "fst (updateStats f now w) = Inr (Some (f (curStats w uid now)))
       \<and> storedStats (snd (updateStats f now w)) uid = Some (StatsDoc (f (curStats w uid now)))
       \<and> activeUser (snd (updateStats f now w)) = Some uid
       \<and> isGuestMode (snd (updateStats f now w)) = isGuestMode w
       \<and> answers (snd (updateStats f now w))"
proof -
  let ?c = "curStats w uid now"
  obtain w1 where g: "getStats now w = (Inr ?c, w1)"
    using getStats_cur(1) [OF act ok, of now] by (cases "getStats now w") simp
  have st: "storedStats w1 uid = Some (StatsDoc ?c)" and an: "answers w1"
    using getStats_cur(2,3) [OF act ok, of now] g by simp_all
  have fr: "activeUser w1 = Some uid" "isGuestMode w1 = isGuestMode w"
    using getStats_frame [of now w] act g by simp_all
  show ?thesis
  proof (cases "isGuestMode w")
    case True
    then have fnd: "find (\<lambda>s. userId s = uid) (STATS (localStorage w1)) = Some ?c"
      using st fr by (auto simp: storedStats_def)
    have P: "userId (f ?c) = uid"
      using keep curStats_userId_guest [OF True] by simp
    obtain i where i: "findIndex (\<lambda>s. userId s = uid) (STATS (localStorage w1)) = Some i"
      "find (\<lambda>s. userId s = uid) ((STATS (localStorage w1))[i := f ?c]) = Some (f ?c)"
      using findIndex_found [OF fnd, of "f ?c"] P by auto
    show ?thesis
      using True act g fr i
      by (simp add: updateStats_def Let_def storedStats_def answers_def)
  next
    case False
    then have r: "reachable (db w1)"
      using an fr by (simp add: answers_def)
    show ?thesis
      using False act g fr r
      by (simp add: updateStats_def Let_def storedStats_def answers_def setDoc_def update_conv')
  qed
qed

lemma checkLoginStreak_run:
  assumes act: "activeUser w = Some uid" and ok: "wellStored w uid"
  shows "fst (checkLoginStreak tz now w) = Inr ()
       \<and> storedStats (snd (checkLoginStreak tz now w)) uid
           = Some (StatsDoc (streakUpdate tz now (curStats w uid now)))
       \<and> activeUser (snd (checkLoginStreak tz now w)) = Some uid
       \<and> isGuestMode (snd (checkLoginStreak tz now w)) = isGuestMode w
       \<and> answers (snd (checkLoginStreak tz now w))"
proof -
  let ?c = "curStats w uid now"
  obtain w1 where g: "getStats now w = (Inr ?c, w1)"
    using getStats_cur(1) [OF act ok, of now] by (cases "getStats now w") simp
  have st: "storedStats w1 uid = Some (StatsDoc ?c)" and an: "answers w1"
    using getStats_cur(2,3) [OF act ok, of now] g by simp_all
  have fr: "activeUser w1 = Some uid" "isGuestMode w1 = isGuestMode w"
    using getStats_frame [of now w] act g by simp_all
  have ok1: "wellStored w1 uid" and c1: "curStats w1 uid now = ?c"
    using st an by (simp_all add: wellStored_def curStats_def)
  show ?thesis
  proof (cases "toDateString tz (lastLoginDate ?c) = toDateString tz now")
    case True
    then show ?thesis
      using act g st an fr by (simp add: checkLoginStreak_def streakUpdate_def)
  next
    case False
    let ?f = "\<lambda>s::UserStats. s\<lparr>loginStreak :=
                 (if toDateString tz (lastLoginDate ?c) = toDateString tz now - 1
                  then loginStreak ?c + 1 else 1), lastLoginDate := now\<rparr>"
    have u: "fst (updateStats ?f now w1) = Inr (Some (?f ?c))
       \<and> storedStats (snd (updateStats ?f now w1)) uid = Some (StatsDoc (?f ?c))
       \<and> activeUser (snd (updateStats ?f now w1)) = Some uid
       \<and> isGuestMode (snd (updateStats ?f now w1)) = isGuestMode w1
       \<and> answers (snd (updateStats ?f now w1))"
      using updateStats_store [OF fr(1) ok1, of ?f now] c1 by simp
    obtain w2 where w2: "updateStats ?f now w1 = (Inr (Some (?f ?c)), w2)"
      using u by (cases "updateStats ?f now w1") simp
    show ?thesis
      using False act g u w2 fr by (simp add: checkLoginStreak_def streakUpdate_def Let_def)
  qed
qed

lemma checkLoginStreak_fail:
  assumes "activeUser w = Some uid" "\<not> wellStored w uid"
  shows "\<exists>e. checkLoginStreak tz now w = (Inl e, w)"
  using getStats_fail [OF assms, of now] assms(1) by (auto simp: checkLoginStreak_def)

lemma checkLoginStreak_same_day:
  assumes "activeUser w = Some uid" "answers w" "storedStats w uid = Some (StatsDoc s)"
    "toDateString tz (lastLoginDate s) = toDateString tz now"
  shows "checkLoginStreak tz now w = (Inr (), w)"
  using assms getStats_found [of w uid s now] by (simp add: checkLoginStreak_def)

lemma streakUpdate_day:
  "toDateString tz (lastLoginDate (streakUpdate tz now c)) = toDateString tz now"
  by (simp add: streakUpdate_def)

lemma logStudyTime_run:
  assumes act: "activeUser w = Some uid" and ok: "wellStored w uid"
  shows "fst (logStudyTime m now w) = Inr ()
       \<and> storedStats (snd (logStudyTime m now w)) uid
           = Some (StatsDoc (studyUpdate m (toISODate now) (curStats w uid now)))
       \<and> activeUser (snd (logStudyTime m now w)) = Some uid
       \<and> isGuestMode (snd (logStudyTime m now w)) = isGuestMode w
       \<and> answers (snd (logStudyTime m now w))"
proof -
  let ?f = "studyUpdate m (toISODate now)"
  have f: "(\<lambda>s. s\<lparr>totalTimeStudiedMinutes := jsAdd (totalTimeStudiedMinutes s) m,
                   dailyActivity := (dailyActivity s)
                      (toISODate now \<mapsto> jsAdd (case dailyActivity s (toISODate now) of
                                                 None \<Rightarrow> 0 | Some v \<Rightarrow> v) m)\<rparr>) = ?f"
    by (simp add: studyUpdate_def fun_eq_iff)
  have u: "fst (updateStats ?f now w) = Inr (Some (?f (curStats w uid now)))
       \<and> storedStats (snd (updateStats ?f now w)) uid = Some (StatsDoc (?f (curStats w uid now)))
       \<and> activeUser (snd (updateStats ?f now w)) = Some uid
       \<and> isGuestMode (snd (updateStats ?f now w)) = isGuestMode w
       \<and> answers (snd (updateStats ?f now w))"
    by (rule updateStats_store [OF act ok]) (simp add: studyUpdate_def)
  obtain w1 where w1: "updateStats ?f now w = (Inr (Some (?f (curStats w uid now))), w1)"
    using u by (cases "updateStats ?f now w") simp
  show ?thesis
    using act u w1 by (simp add: logStudyTime_def Let_def f)
qed

lemma getStats_returned:
  assumes act: "activeUser w = Some uid" and g: "getStats now w = (Inr s, w')"
  shows "wellStored w uid" and "s = curStats w uid now"
proof -
  show ok: "wellStored w uid"
    using getStats_fail [OF act, of now] g by auto
  show "s = curStats w uid now"
    using getStats_cur(1) [OF act ok, of now] g by simp
qed

lemma logStudyTime_twice:
  assumes act: "activeUser w = Some uid" and ok: "wellStored w uid"
  shows "\<exists>w1 w2. logStudyTime a t1 w = (Inr (), w1)
           \<and> logStudyTime b t2 w1 = (Inr (), w2)
           \<and> getStats t3 w2
               = (Inr (studyUpdate b (toISODate t2)
                         (studyUpdate a (toISODate t1) (curStats w uid t1))), w2)"
proof -
  let ?w1 = "snd (logStudyTime a t1 w)"
  let ?w2 = "snd (logStudyTime b t2 ?w1)"
  let ?s1 = "studyUpdate a (toISODate t1) (curStats w uid t1)"
  let ?s2 = "studyUpdate b (toISODate t2) ?s1"
  have r1: "fst (logStudyTime a t1 w) = Inr ()"
    "storedStats ?w1 uid = Some (StatsDoc ?s1)" "activeUser ?w1 = Some uid" "answers ?w1"
    using logStudyTime_run [OF act ok, of a t1] by simp_all
  have ok1: "wellStored ?w1 uid" and c1: "curStats ?w1 uid t2 = ?s1"
    using r1 by (simp_all add: wellStored_def curStats_def)
  have r2: "fst (logStudyTime b t2 ?w1) = Inr ()"
    "storedStats ?w2 uid = Some (StatsDoc ?s2)" "activeUser ?w2 = Some uid" "answers ?w2"
    using logStudyTime_run [OF r1(3) ok1, of b t2] c1 by simp_all
  have g2: "getStats t3 ?w2 = (Inr ?s2, ?w2)"
    using getStats_found [OF r2(3) r2(2) r2(4)] .
  have l1: "logStudyTime a t1 w = (Inr (), ?w1)" and l2: "logStudyTime b t2 ?w1 = (Inr (), ?w2)"
    using r1(1) r2(1) by (simp_all add: prod_eq_iff)
  show ?thesis
    using l1 l2 g2 by blast
qed

section \<open>Guest mode: the shared local table\<close>

lemma saveNotes_guest:
  "isGuestMode w \<Longrightarrow> activeUser w = Some uid \<Longrightarrow>
   saveNotes L w = (Inr (), w\<lparr>localStorage := saveLocalUserItems NOTES uid L (localStorage w)\<rparr>)"
  by (simp add: saveNotes_def)

lemma getLocalDB_save:
  "getLocalDB key (saveLocalUserItems key uid items ls) =
     filter (\<lambda>i. userId i \<noteq> uid) (getLocalDB key ls) @ items"
  by (simp add: getLocalDB_def saveLocalUserItems_def saveLocalDB_def Let_def)

lemma getNotes_guest:
  "isGuestMode w \<Longrightarrow> activeUser w = Some uid \<Longrightarrow>
   getNotes w = Inr (map ItemDoc (getLocalUserItems NOTES uid (localStorage w)))"
  by (simp add: getNotes_def loadCollection_def keyMap_def)

lemma setSession_guest:
  "isGuest u \<Longrightarrow> id' u \<noteq> [] \<Longrightarrow>
   isGuestMode (setSession u w) \<and> activeUser (setSession u w) = Some (id' u)
   \<and> getLocalDB key (localStorage (setSession u w)) = getLocalDB key (localStorage w)"
  by (simp add: setSession_def activeUser_def getLocalDB_def Let_def)

section \<open>Authenticated mode: batches\<close>

lemma saveSummaries_remote:
  assumes "activeUser w = Some uid" "\<not> isGuestMode w" "reachable (db w)"
  shows "saveSummaries L w =
     (Inr (), w\<lparr>db := (db w)\<lparr>docs :=
        applyWrites (map (\<lambda>x. ((uid, ''summaries'', id' x), ItemDoc x)) L) (docs (db w))\<rparr>\<rparr>)"
  using assms by (simp add: saveSummaries_def forEach_batch_set commit_def Let_def)

lemma getSummaries_remote:
  assumes "activeUser w = Some uid" "\<not> isGuestMode w" "reachable (db w)"
  shows "getSummaries w =
     Inr (map snd (filter (\<lambda>((u, c, i), d). (u, c) = (uid, ''summaries'')) (docs (db w))))"
  using assms by (simp add: getSummaries_def loadCollection_def getDocs_def)














section \<open>The claims\<close>

subsection \<open>Migration\<close>



subsection \<open>Stats\<close>

text \<open>
  Claim C2. For an active user for whom no stats record is stored, \<^verbatim>\<open>getStats()\<close> returns
  a record whose counters \<^verbatim>\<open>totalTimeStudiedMinutes\<close>, \<^verbatim>\<open>notesCreated\<close>, \<^verbatim>\<open>quizzesTaken\<close>,
  \<^verbatim>\<open>loginStreak\<close> and \<^verbatim>\<open>highScore\<close> are zero and whose \<^verbatim>\<open>lastLoginDate\<close> is the current time,
  and stores it; a later \<^verbatim>\<open>getStats()\<close>, at whatever time, returns the same record and
  changes nothing. (In authenticated mode the remote store has to answer.)
\<close>

theorem getStats_lazy_create:
  assumes act: "activeUser w = Some uid" and none: "storedStats w uid = None" and an: "answers w"
  shows "\<exists>s w'. getStats now w = (Inr s, w')
           \<and> totalTimeStudiedMinutes s = 0 \<and> notesCreated s = 0 \<and> quizzesTaken s = 0
           \<and> loginStreak s = 0 \<and> highScore s = 0 \<and> lastLoginDate s = now
           \<and> storedStats w' uid = Some (StatsDoc s)
           \<and> (\<forall>later. getStats later w' = (Inr s, w'))"
proof -
  let ?s = "createEmptyStats uid now" and ?w' = "snd (getStats now w)"
  have g: "getStats now w = (Inr ?s, ?w')"
    using getStats_create(1) [OF act none an, of now] by (simp add: prod_eq_iff)
  have st: "storedStats ?w' uid = Some (StatsDoc ?s)" "activeUser ?w' = Some uid" "answers ?w'"
    using getStats_create [OF act none an, of now] by simp_all
  have again: "getStats later ?w' = (Inr ?s, ?w')" for later
    using getStats_found [OF st(2) st(1) st(3)] .
  have z: "totalTimeStudiedMinutes ?s = 0 \<and> notesCreated ?s = 0 \<and> quizzesTaken ?s = 0
           \<and> loginStreak ?s = 0 \<and> highScore ?s = 0 \<and> lastLoginDate ?s = now"
    by (simp add: createEmptyStats_def)
  show ?thesis
    using g st(1) again z by blast
qed

theorem getStats_lazy_create_witness:
  "activeUser newGuestWorld = Some ''g3'' \<and> storedStats newGuestWorld ''g3'' = None
 \<and> answers newGuestWorld
 \<and> (\<exists>s w'. getStats day20000 newGuestWorld = (Inr s, w')
           \<and> totalTimeStudiedMinutes s = 0 \<and> notesCreated s = 0 \<and> quizzesTaken s = 0
           \<and> loginStreak s = 0 \<and> highScore s = 0 \<and> lastLoginDate s = day20000
           \<and> storedStats w' ''g3'' = Some (StatsDoc s)
           \<and> (\<forall>later. getStats later w' = (Inr s, w')))
 \<and> activeUser authWorld = Some ''u1'' \<and> storedStats authWorld ''u1'' = None
 \<and> answers authWorld
 \<and> (\<exists>s w'. getStats day20000 authWorld = (Inr s, w')
           \<and> totalTimeStudiedMinutes s = 0 \<and> notesCreated s = 0 \<and> quizzesTaken s = 0
           \<and> loginStreak s = 0 \<and> highScore s = 0 \<and> lastLoginDate s = day20000
           \<and> storedStats w' ''u1'' = Some (StatsDoc s)
           \<and> (\<forall>later. getStats later w' = (Inr s, w')))"
proof -
  have g: "activeUser newGuestWorld = Some ''g3''" "storedStats newGuestWorld ''g3'' = None"
    "answers newGuestWorld"
    by (simp_all add: newGuestWorld_def activeUser_def storedStats_def answers_def device_def
        g1Stats_def)
  have a: "activeUser authWorld = Some ''u1''" "storedStats authWorld ''u1'' = None"
    "answers authWorld"
    by (simp_all add: authWorld_def activeUser_def storedStats_def answers_def)
  show ?thesis
    using g a getStats_lazy_create [OF g, of day20000] getStats_lazy_create [OF a, of day20000]
    by simp
qed



text \<open>
  Claim C4. Two calls of \<^verbatim>\<open>checkLoginStreak()\<close> on the same calendar date (in local time): when
  the first has returned, the second returns and leaves the state as the first left it, so
  the \<^verbatim>\<open>loginStreak\<close> after the second call is the one after the first. The first call does
  return whenever the stats of the active user are well stored, as they always are in
  guest mode.
\<close>

theorem checkLoginStreak_twice:
  assumes day: "toDateString tz t2 = toDateString tz t1"
  shows "(checkLoginStreak tz t1 w = (Inr (), w1) \<longrightarrow> checkLoginStreak tz t2 w1 = (Inr (), w1))
       \<and> ((\<forall>uid. activeUser w = Some uid \<longrightarrow> wellStored w uid) \<longrightarrow>
            fst (checkLoginStreak tz t1 w) = Inr ())"
proof (intro conjI impI)
  assume first: "checkLoginStreak tz t1 w = (Inr (), w1)"
  show "checkLoginStreak tz t2 w1 = (Inr (), w1)"
  proof (cases "activeUser w")
    case None
    then show ?thesis using first by (simp add: checkLoginStreak_def)
  next
    case (Some uid)
    have ok: "wellStored w uid"
      using checkLoginStreak_fail [OF Some, of tz t1] first by auto
    have r: "storedStats w1 uid = Some (StatsDoc (streakUpdate tz t1 (curStats w uid t1)))"
      "activeUser w1 = Some uid" "answers w1"
      using checkLoginStreak_run [OF Some ok, of tz t1] first by simp_all
    show ?thesis
      using checkLoginStreak_same_day [OF r(2) r(3) r(1), of tz t2] streakUpdate_day [of tz t1] day
      by simp
  qed
next
  assume ok: "\<forall>uid. activeUser w = Some uid \<longrightarrow> wellStored w uid"
  show "fst (checkLoginStreak tz t1 w) = Inr ()"
  proof (cases "activeUser w")
    case None
    then show ?thesis by (simp add: checkLoginStreak_def)
  next
    case (Some uid)
    then show ?thesis
      using checkLoginStreak_run [OF Some, of tz t1] ok by simp
  qed
qed

theorem checkLoginStreak_twice_witness:
  "toDateString zone (day20000 + 90000000) = toDateString zone (day20000 + 86400000)
 \<and> fst (checkLoginStreak zone (day20000 + 86400000) guestWorld) = Inr ()
 \<and> storedStats (snd (checkLoginStreak zone (day20000 + 86400000) guestWorld)) ''g1''
     = Some (StatsDoc (g1Stats\<lparr>loginStreak := 4, lastLoginDate := day20000 + 86400000\<rparr>))
 \<and> checkLoginStreak zone (day20000 + 90000000)
       (snd (checkLoginStreak zone (day20000 + 86400000) guestWorld))
     = (Inr (), snd (checkLoginStreak zone (day20000 + 86400000) guestWorld))"
proof -
  let ?t1 = "day20000 + 86400000" and ?t2 = "day20000 + 90000000"
  let ?w1 = "snd (checkLoginStreak zone ?t1 guestWorld)"
  have day: "toDateString zone ?t2 = toDateString zone ?t1"
    by (simp add: toDateString_def zone_def day20000_def msPerDay_def)
  note twice = checkLoginStreak_twice [OF day, of guestWorld ?w1]
  have h: "activeUser guestWorld = Some ''g1''" "answers guestWorld"
    "storedStats guestWorld ''g1'' = Some (StatsDoc g1Stats)"
    by (simp_all add: guestWorld_def activeUser_def storedStats_def answers_def device_def
        g1Stats_def)
  have ok: "\<forall>uid. activeUser guestWorld = Some uid \<longrightarrow> wellStored guestWorld uid"
    by (simp add: guest_wellStored guestWorld_def)
  have ret: "fst (checkLoginStreak zone ?t1 guestWorld) = Inr ()"
    using twice ok by blast
  then have first: "checkLoginStreak zone ?t1 guestWorld = (Inr (), ?w1)"
    by (simp add: prod_eq_iff)
  have second: "checkLoginStreak zone ?t2 ?w1 = (Inr (), ?w1)"
    using twice first by blast
  have yest: "toDateString zone (lastLoginDate g1Stats) = toDateString zone ?t1 - 1"
    by (simp add: toDateString_def zone_def g1Stats_def day20000_def msPerDay_def)
  have stored: "storedStats ?w1 ''g1''
     = Some (StatsDoc (g1Stats\<lparr>loginStreak := 4, lastLoginDate := ?t1\<rparr>))"
    using checkLoginStreak_run [OF h(1) stored_wellStored [OF h(2) h(3)], of zone ?t1]
      curStats_stored [OF h(3), of ?t1] yest
    by (simp add: streakUpdate_def g1Stats_def)
  show ?thesis
    using day ret stored second by simp
qed

text \<open>
  Claim C5, for two calls on the same calendar day in UTC. Let an active user's record,
  as \<^verbatim>\<open>getStats()\<close> returns it before the calls, hold integers that JavaScript counts
  exactly, also when 45 is added: the total and the minutes of the day. Then
  \<^verbatim>\<open>logStudyTime(30)\<close> followed by \<^verbatim>\<open>logStudyTime(15)\<close> at a time of the same UTC day both
  return, and \<^verbatim>\<open>getStats()\<close> returns afterwards the record in which the \<^verbatim>\<open>dailyActivity\<close> entry
  of the day's key is its prior value plus 45, or 45 if there was none,
  \<^verbatim>\<open>totalTimeStudiedMinutes\<close> has grown by 45, and nothing else has changed. The key is the
  \<^verbatim>\<open>YYYY-MM-DD\<close> of the date of that day in UTC, and, of all instants that a \<^verbatim>\<open>Date\<close> can hold,
  exactly those of that UTC day have this key.
\<close>

theorem logStudyTime_accumulates:
  assumes act: "activeUser w = Some uid"
    and prior: "getStats t1 w = (Inr s0, w0)"
    and day: "t2 div msPerDay = t1 div msPerDay"
    and valid: "validTime t1"
    and total: "safeInteger (totalTimeStudiedMinutes s0)"
      "safeInteger (totalTimeStudiedMinutes s0 + 45)"
    and daily: "safeInteger (dailyMinutes s0 (toISODate t1))"
      "safeInteger (dailyMinutes s0 (toISODate t1) + 45)"
  shows "\<exists>w1 w2 s2 y m d.
           logStudyTime 30 t1 w = (Inr (), w1)
         \<and> logStudyTime 15 t2 w1 = (Inr (), w2)
         \<and> getStats t3 w2 = (Inr s2, w2)
         \<and> validDate (y, m, d) \<and> daysFromCivil (y, m, d) = t1 div msPerDay
         \<and> toISODate t1 = isoYear y @ ''-'' @ pad2 (nat m) @ ''-'' @ pad2 (nat d)
         \<and> (\<forall>t. validTime t \<longrightarrow>
               (toISODate t = toISODate t1 \<longleftrightarrow> t div msPerDay = t1 div msPerDay))
         \<and> dailyActivity s2 (toISODate t1) = Some (dailyMinutes s0 (toISODate t1) + 45)
         \<and> totalTimeStudiedMinutes s2 = totalTimeStudiedMinutes s0 + 45
         \<and> s2 = s0\<lparr>totalTimeStudiedMinutes := totalTimeStudiedMinutes s0 + 45,
                    dailyActivity := (dailyActivity s0)
                      (toISODate t1 \<mapsto> dailyMinutes s0 (toISODate t1) + 45)\<rparr>"
proof -
  let ?k = "toISODate t1"
  let ?s2 = "s0\<lparr>totalTimeStudiedMinutes := totalTimeStudiedMinutes s0 + 45,
                 dailyActivity := (dailyActivity s0)(?k \<mapsto> dailyMinutes s0 ?k + 45)\<rparr>"
  have ok: "wellStored w uid" and s0: "curStats w uid t1 = s0"
    using getStats_returned [OF act prior] by simp_all
  have k2: "toISODate t2 = ?k"
    using day by (rule toISODate_same_day)
  have mid: "safeInteger (totalTimeStudiedMinutes s0 + 30)"
    "safeInteger (dailyMinutes s0 ?k + 30)"
    using total daily unfolding safeInteger_def by arith+
  have first: "jsAdd (totalTimeStudiedMinutes s0) 30 = totalTimeStudiedMinutes s0 + 30"
    "jsAdd (dailyMinutes s0 ?k) 30 = dailyMinutes s0 ?k + 30"
    using mid by (simp_all add: jsAdd_exact)
  have last: "safeInteger (totalTimeStudiedMinutes s0 + 30 + 15)"
    "safeInteger (dailyMinutes s0 ?k + 30 + 15)"
    using total(2) daily(2) by (simp_all add: safeInteger_def)
  have sums: "jsAdd (jsAdd (totalTimeStudiedMinutes s0) 30) 15 = totalTimeStudiedMinutes s0 + 45"
    "jsAdd (jsAdd (dailyMinutes s0 ?k) 30) 15 = dailyMinutes s0 ?k + 45"
    unfolding first jsAdd_exact [OF last(1)] jsAdd_exact [OF last(2)] by simp_all
  have upd: "studyUpdate 15 ?k (studyUpdate 30 ?k s0) = ?s2"
    using sums by (simp add: studyUpdate_def dailyMinutes_def)
  obtain w1 w2 where run: "logStudyTime 30 t1 w = (Inr (), w1)"
    "logStudyTime 15 t2 w1 = (Inr (), w2)" "getStats t3 w2 = (Inr ?s2, w2)"
    using logStudyTime_twice [OF act ok, of 30 t1 15 t2 t3] unfolding s0 k2 upd by blast
  obtain y m d where date: "validDate (y, m, d)" "daysFromCivil (y, m, d) = t1 div msPerDay"
    "?k = isoYear y @ ''-'' @ pad2 (nat m) @ ''-'' @ pad2 (nat d)"
    using toISODate_date [of t1] by blast
  have only: "\<forall>t. validTime t \<longrightarrow> (toISODate t = ?k \<longleftrightarrow> t div msPerDay = t1 div msPerDay)"
    using toISODate_inj [OF _ valid] toISODate_same_day by blast
  have vals: "dailyActivity ?s2 ?k = Some (dailyMinutes s0 ?k + 45)"
    "totalTimeStudiedMinutes ?s2 = totalTimeStudiedMinutes s0 + 45"
    by simp_all
  show ?thesis
    using run date only vals by blast
qed

theorem logStudyTime_accumulates_witness:
  "activeUser guestWorld = Some ''g1''
 \<and> getStats (day20000 + 1000) guestWorld = (Inr g1Stats, guestWorld)
 \<and> (day20000 + 5000) div msPerDay = (day20000 + 1000) div msPerDay
 \<and> validTime (day20000 + 1000)
 \<and> safeInteger (totalTimeStudiedMinutes g1Stats)
 \<and> safeInteger (totalTimeStudiedMinutes g1Stats + 45)
 \<and> safeInteger (dailyMinutes g1Stats (toISODate (day20000 + 1000)))
 \<and> safeInteger (dailyMinutes g1Stats (toISODate (day20000 + 1000)) + 45)
 \<and> toISODate (day20000 + 1000) = ''2024-10-04''
 \<and> validDate (2024, 10, 4) \<and> daysFromCivil (2024, 10, 4) = (day20000 + 1000) div msPerDay
 \<and> validTime (day20000 + msPerDay) \<and> toISODate (day20000 + msPerDay) = ''2024-10-05''
 \<and> toISODate (day20000 + msPerDay) \<noteq> toISODate (day20000 + 1000)
 \<and> (\<exists>w2 s2. logStudyTime 15 (day20000 + 5000)
                 (snd (logStudyTime 30 (day20000 + 1000) guestWorld)) = (Inr (), w2)
         \<and> getStats (day20000 + 9000) w2 = (Inr s2, w2)
         \<and> dailyActivity s2 ''2024-10-04'' = Some 165
         \<and> dailyActivity s2 ''2024-10-05'' = None
         \<and> totalTimeStudiedMinutes s2 = 165
         \<and> loginStreak s2 = 3 \<and> lastLoginDate s2 = day20000)"
proof -
  let ?t1 = "day20000 + 1000"
  have act: "activeUser guestWorld = Some ''g1''"
    by (simp add: guestWorld_def activeUser_def)
  have g: "getStats ?t1 guestWorld = (Inr g1Stats, guestWorld)"
    by (simp add: getStats_def guestWorld_def activeUser_def device_def g1Stats_def)
  have day: "(day20000 + 5000) div msPerDay = ?t1 div msPerDay"
    by (simp add: day20000_def msPerDay_def)
  have valid: "validTime ?t1" "validTime (day20000 + msPerDay)"
    by (simp_all add: validTime_def day20000_def msPerDay_def)
  have c: "civilFromDays (?t1 div msPerDay) = (2024, 10, 4)"
    "civilFromDays ((day20000 + msPerDay) div msPerDay) = (2024, 10, 5)"
    by code_simp+
  have k: "toISODate ?t1 = ''2024-10-04''" "toISODate (day20000 + msPerDay) = ''2024-10-05''"
    by (simp_all add: toISODate_def isoDate_def c isoYear_def pad4_def pad2_def digit_def)
  have date: "validDate (2024, 10, 4)" "daysFromCivil (2024, 10, 4) = ?t1 div msPerDay"
    by code_simp+
  have p: "dailyMinutes g1Stats (toISODate ?t1) = 120" "totalTimeStudiedMinutes g1Stats = 120"
    "dailyMinutes g1Stats ''2024-10-04'' = 120"
    by (simp_all add: dailyMinutes_def g1Stats_def k)
  have safe: "safeInteger (totalTimeStudiedMinutes g1Stats)"
    "safeInteger (totalTimeStudiedMinutes g1Stats + 45)"
    "safeInteger (dailyMinutes g1Stats (toISODate ?t1))"
    "safeInteger (dailyMinutes g1Stats (toISODate ?t1) + 45)"
    by (simp_all add: p(1,2) safeInteger_def)
  obtain w1 w2 s2 where r:
    "logStudyTime 30 ?t1 guestWorld = (Inr (), w1)"
    "logStudyTime 15 (day20000 + 5000) w1 = (Inr (), w2)"
    "getStats (day20000 + 9000) w2 = (Inr s2, w2)"
    "\<forall>t. validTime t \<longrightarrow>
        (toISODate t = toISODate ?t1 \<longleftrightarrow> t div msPerDay = ?t1 div msPerDay)"
    "s2 = g1Stats\<lparr>totalTimeStudiedMinutes := totalTimeStudiedMinutes g1Stats + 45,
                   dailyActivity := (dailyActivity g1Stats)
                     (toISODate ?t1 \<mapsto> dailyMinutes g1Stats (toISODate ?t1) + 45)\<rparr>"
    using logStudyTime_accumulates [OF act g day valid(1) safe, of "day20000 + 9000"] by blast
  have other: "(day20000 + msPerDay) div msPerDay \<noteq> ?t1 div msPerDay"
    by (simp add: day20000_def msPerDay_def)
  have ne: "toISODate (day20000 + msPerDay) \<noteq> toISODate ?t1"
    using r(4) valid(2) other by blast
  have w1: "w1 = snd (logStudyTime 30 ?t1 guestWorld)"
    using r(1) by simp
  have s2: "dailyActivity s2 ''2024-10-04'' = Some 165" "dailyActivity s2 ''2024-10-05'' = None"
    "totalTimeStudiedMinutes s2 = 165" "loginStreak s2 = 3" "lastLoginDate s2 = day20000"
    unfolding r(5) k p(2,3) by (simp_all add: g1Stats_def)
  have "logStudyTime 15 (day20000 + 5000) (snd (logStudyTime 30 ?t1 guestWorld)) = (Inr (), w2)
      \<and> getStats (day20000 + 9000) w2 = (Inr s2, w2)
      \<and> dailyActivity s2 ''2024-10-04'' = Some 165
      \<and> dailyActivity s2 ''2024-10-05'' = None
      \<and> totalTimeStudiedMinutes s2 = 165
      \<and> loginStreak s2 = 3 \<and> lastLoginDate s2 = day20000"
    using r(2,3) w1 s2 by simp
  then have run: "\<exists>w2 s2. logStudyTime 15 (day20000 + 5000)
                 (snd (logStudyTime 30 ?t1 guestWorld)) = (Inr (), w2)
         \<and> getStats (day20000 + 9000) w2 = (Inr s2, w2)
         \<and> dailyActivity s2 ''2024-10-04'' = Some 165
         \<and> dailyActivity s2 ''2024-10-05'' = None
         \<and> totalTimeStudiedMinutes s2 = 165
         \<and> loginStreak s2 = 3 \<and> lastLoginDate s2 = day20000"
    by blast
  show ?thesis
    using act g day valid safe k date ne run by simp
qed

text \<open>
  The claim as the specification states it, for two calls on the same calendar day, fails
  when the day is read as \<^verbatim>\<open>checkLoginStreak\<close> reads it, in local time: the key comes from
  \<^verbatim>\<open>toISOString()\<close>, which is in UTC. Five and a half hours ahead of UTC, 05:00 and 06:00 of
  the 5th of October 2024 are 23:30 of the 4th and 00:30 of the 5th in UTC. For a user
  without earlier stats the two calls return, and they leave 30 minutes under
  \<^verbatim>\<open>2024-10-04\<close> and 15 under \<^verbatim>\<open>2024-10-05\<close>, the local date: no entry is 45.
\<close>

theorem logStudyTime_accumulates_counterexample:
  "activeUser newGuestWorld = Some ''g3''
 \<and> fst (getStats (day20000 + 84600000) newGuestWorld)
     = Inr (createEmptyStats ''g3'' (day20000 + 84600000))
 \<and> toDateString zone (day20000 + 84600000) = toDateString zone (day20000 + 88200000)
 \<and> isoDate (civilFromDays (toDateString zone (day20000 + 84600000))) = ''2024-10-05''
 \<and> toISODate (day20000 + 84600000) = ''2024-10-04''
 \<and> toISODate (day20000 + 88200000) = ''2024-10-05''
 \<and> (\<exists>w1 w2 s2. logStudyTime 30 (day20000 + 84600000) newGuestWorld = (Inr (), w1)
         \<and> logStudyTime 15 (day20000 + 88200000) w1 = (Inr (), w2)
         \<and> getStats (day20000 + 88200000) w2 = (Inr s2, w2)
         \<and> dailyActivity s2 ''2024-10-04'' = Some 30
         \<and> dailyActivity s2 ''2024-10-05'' = Some 15
         \<and> dom (dailyActivity s2) = {''2024-10-04'', ''2024-10-05''}
         \<and> totalTimeStudiedMinutes s2 = 45)"
proof -
  let ?a = "day20000 + 84600000"
  let ?b = "day20000 + 88200000"
  have act: "activeUser newGuestWorld = Some ''g3''"
    by (simp add: newGuestWorld_def activeUser_def)
  have ok: "wellStored newGuestWorld ''g3''"
    by (simp add: guest_wellStored newGuestWorld_def)
  have cur: "curStats newGuestWorld ''g3'' ?a = createEmptyStats ''g3'' ?a"
    by (simp add: curStats_def storedStats_def newGuestWorld_def device_def g1Stats_def)
  have g: "fst (getStats ?a newGuestWorld) = Inr (createEmptyStats ''g3'' ?a)"
    using getStats_cur(1) [OF act ok, of ?a] cur by simp
  have loc: "toDateString zone ?a = 20001" "toDateString zone ?b = 20001"
    by (simp_all add: toDateString_def zone_def day20000_def msPerDay_def)
  have c: "civilFromDays 20001 = (2024, 10, 5)"
    "civilFromDays (?a div msPerDay) = (2024, 10, 4)"
    "civilFromDays (?b div msPerDay) = (2024, 10, 5)"
    by code_simp+
  have k: "isoDate (civilFromDays (toDateString zone ?a)) = ''2024-10-05''"
    "toISODate ?a = ''2024-10-04''" "toISODate ?b = ''2024-10-05''"
    by (simp_all add: loc toISODate_def isoDate_def c isoYear_def pad4_def pad2_def digit_def)
  have sums: "jsAdd 0 30 = 30" "jsAdd 0 15 = 15" "jsAdd 30 15 = 45"
    by (simp_all add: jsAdd_exact safeInteger_def)
  obtain w1 w2 where run: "logStudyTime 30 ?a newGuestWorld = (Inr (), w1)"
    "logStudyTime 15 ?b w1 = (Inr (), w2)"
    "getStats ?b w2 = (Inr (studyUpdate 15 ''2024-10-05''
                         (studyUpdate 30 ''2024-10-04'' (createEmptyStats ''g3'' ?a))), w2)"
    using logStudyTime_twice [OF act ok, of 30 ?a 15 ?b ?b] unfolding cur k by blast
  let ?s2 = "studyUpdate 15 ''2024-10-05''
               (studyUpdate 30 ''2024-10-04'' (createEmptyStats ''g3'' ?a))"
  have s2: "dailyActivity ?s2 ''2024-10-04'' = Some 30"
    "dailyActivity ?s2 ''2024-10-05'' = Some 15"
    "dom (dailyActivity ?s2) = {''2024-10-04'', ''2024-10-05''}"
    "totalTimeStudiedMinutes ?s2 = 45"
    by (auto simp: studyUpdate_def createEmptyStats_def sums)
  have "\<exists>w1 w2 s2. logStudyTime 30 ?a newGuestWorld = (Inr (), w1)
         \<and> logStudyTime 15 ?b w1 = (Inr (), w2)
         \<and> getStats ?b w2 = (Inr s2, w2)
         \<and> dailyActivity s2 ''2024-10-04'' = Some 30
         \<and> dailyActivity s2 ''2024-10-05'' = Some 15
         \<and> dom (dailyActivity s2) = {''2024-10-04'', ''2024-10-05''}
         \<and> totalTimeStudiedMinutes s2 = 45"
    using run s2 by blast
  then show ?thesis
    using act g loc k by simp
qed

text \<open>
  Claim C9. A new user: the stats record is created by \<^verbatim>\<open>getStats()\<close> with \<^verbatim>\<open>loginStreak\<close> 0 and
  \<^verbatim>\<open>lastLoginDate\<close> the time of creation. A \<^verbatim>\<open>checkLoginStreak()\<close> later on the same calendar
  date (in local time) returns and changes nothing, so the streak read afterwards is
  still 0: the first day never sets it to 1.
\<close>

theorem first_day_streak_zero:
  assumes act: "activeUser w = Some uid" and none: "storedStats w uid = None" and an: "answers w"
    and day: "toDateString tz t1 = toDateString tz t0"
  shows "\<exists>s w0. getStats t0 w = (Inr s, w0) \<and> loginStreak s = 0 \<and> lastLoginDate s = t0
           \<and> checkLoginStreak tz t1 w0 = (Inr (), w0)
           \<and> (\<forall>t. \<exists>s'. getStats t w0 = (Inr s', w0) \<and> loginStreak s' = 0)"
proof -
  let ?s = "createEmptyStats uid t0" and ?w0 = "snd (getStats t0 w)"
  have g: "getStats t0 w = (Inr ?s, ?w0)"
    using getStats_create(1) [OF act none an, of t0] by (simp add: prod_eq_iff)
  have st: "storedStats ?w0 uid = Some (StatsDoc ?s)" "activeUser ?w0 = Some uid" "answers ?w0"
    using getStats_create [OF act none an, of t0] by simp_all
  have z: "loginStreak ?s = 0" "lastLoginDate ?s = t0"
    by (simp_all add: createEmptyStats_def)
  have c: "checkLoginStreak tz t1 ?w0 = (Inr (), ?w0)"
    using checkLoginStreak_same_day [OF st(2) st(3) st(1), of tz t1] z day by simp
  have again: "getStats t ?w0 = (Inr ?s, ?w0)" for t
    using getStats_found [OF st(2) st(1) st(3)] .
  show ?thesis
    using g z c again by blast
qed

theorem first_day_streak_zero_witness:
  "activeUser newGuestWorld = Some ''g3'' \<and> storedStats newGuestWorld ''g3'' = None
 \<and> answers newGuestWorld
 \<and> toDateString zone (day20000 + 3600000) = toDateString zone day20000
 \<and> (\<exists>s w0. getStats day20000 newGuestWorld = (Inr s, w0) \<and> loginStreak s = 0
           \<and> lastLoginDate s = day20000
           \<and> checkLoginStreak zone (day20000 + 3600000) w0 = (Inr (), w0)
           \<and> (\<forall>t. \<exists>s'. getStats t w0 = (Inr s', w0) \<and> loginStreak s' = 0))"
proof -
  have h: "activeUser newGuestWorld = Some ''g3''" "storedStats newGuestWorld ''g3'' = None"
    "answers newGuestWorld"
    by (simp_all add: newGuestWorld_def activeUser_def storedStats_def answers_def device_def
        g1Stats_def)
  have day: "toDateString zone (day20000 + 3600000) = toDateString zone day20000"
    by (simp add: toDateString_def zone_def day20000_def msPerDay_def)
  show ?thesis
    using h day first_day_streak_zero [OF h day] by simp
qed

subsection \<open>Collections\<close>

text \<open>
  Claim C6. In guest mode \<^verbatim>\<open>saveNotes(L)\<close> replaces the notes of the current user by \<open>L\<close>,
  whatever was saved before: \<^verbatim>\<open>getNotes()\<close> then returns the records of \<open>L\<close> that carry the
  user's id, which is \<open>L\<close> itself when all of them do. In particular \<^verbatim>\<open>saveNotes([])\<close> after
  two notes were saved makes \<^verbatim>\<open>getNotes()\<close> return the empty list.
\<close>

theorem saveNotes_guest_replaces:
  assumes "isGuestMode w" and "activeUser w = Some uid"
  shows "fst (saveNotes L w) = Inr ()
       \<and> getNotes (snd (saveNotes L w)) = Inr (map ItemDoc (filter (\<lambda>n. userId n = uid) L))
       \<and> ((\<forall>n\<in>set L. userId n = uid) \<longrightarrow> getNotes (snd (saveNotes L w)) = Inr (map ItemDoc L))
       \<and> getNotes (snd (saveNotes [] (snd (saveNotes [a, b] w)))) = Inr []"
proof -
  have step: "getNotes (snd (saveNotes M v)) = Inr (map ItemDoc (filter (\<lambda>n. userId n = uid) M))"
    if "isGuestMode v" "activeUser v = Some uid" for M and v :: "'a world"
    using that by (simp add: saveNotes_guest getNotes_guest getLocalUserItems_def getLocalDB_save)
  have keep: "isGuestMode (snd (saveNotes [a, b] w))"
    "activeUser (snd (saveNotes [a, b] w)) = Some uid"
    using assms by (simp_all add: saveNotes_guest)
  have own: "(\<forall>n\<in>set L. userId n = uid) \<longrightarrow> filter (\<lambda>n. userId n = uid) L = L"
    by (simp add: filter_id_conv)
  have ret: "fst (saveNotes L w) = Inr ()"
    using assms by (simp add: saveNotes_guest)
  show ?thesis
    using ret step [OF assms, of L] step [OF keep, of "[]"] own by simp
qed

theorem saveNotes_guest_replaces_witness:
  "isGuestMode guestWorld \<and> activeUser guestWorld = Some ''g1''
 \<and> getNotes guestWorld = Inr [ItemDoc note1, ItemDoc note2]
 \<and> getNotes (snd (saveNotes [note2] guestWorld)) = Inr [ItemDoc note2]
 \<and> getNotes (snd (saveNotes [] (snd (saveNotes [note1, note2] guestWorld)))) = Inr []"
proof -
  have h: "isGuestMode guestWorld" "activeUser guestWorld = Some ''g1''"
    by (simp_all add: guestWorld_def activeUser_def)
  have mine: "getLocalUserItems NOTES ''g1'' (localStorage guestWorld) = [note1, note2]"
    by (simp add: getLocalUserItems_def getLocalDB_def guestWorld_def device_def
        note1_def note2_def note3_def)
  have before: "getNotes guestWorld = Inr [ItemDoc note1, ItemDoc note2]"
    unfolding getNotes_guest [OF h] mine by simp
  have own: "\<forall>n\<in>set [note2]. userId n = ''g1''"
    by (simp add: note2_def)
  show ?thesis
    using h before own saveNotes_guest_replaces [OF h, of "[note2]" note1 note2] by simp
qed

text \<open>
  Claim C10. In guest mode \<^verbatim>\<open>saveNotes\<close> does not look at the owner of what it saves: a record
  of the saved list whose \<^verbatim>\<open>userId\<close> is another user's goes as it is into the shared notes
  table; after \<^verbatim>\<open>setSession\<close> to that other guest, \<^verbatim>\<open>getNotes()\<close> returns it; and whatever list
  the first user saves later, the record stays in the table and the other guest still gets
  it.
\<close>

theorem saveNotes_guest_foreign_record:
  assumes guest: "isGuestMode w" and act: "activeUser w = Some uid"
    and mem: "n \<in> set L" and other: "userId n \<noteq> uid" and nonempty: "userId n \<noteq> []"
    and u: "id' u = userId n" "isGuest u"
  shows "n \<in> set (getLocalDB NOTES (localStorage (snd (saveNotes L w))))
       \<and> (\<exists>r. getNotes (setSession u (snd (saveNotes L w))) = Inr r \<and> ItemDoc n \<in> set r)
       \<and> (\<forall>L'. n \<in> set (getLocalDB NOTES (localStorage (snd (saveNotes L' (snd (saveNotes L w))))))
              \<and> (\<exists>r. getNotes (setSession u (snd (saveNotes L' (snd (saveNotes L w))))) = Inr r
                     \<and> ItemDoc n \<in> set r))"
proof -
  let ?w1 = "snd (saveNotes L w)"
  have w1: "isGuestMode ?w1" "activeUser ?w1 = Some uid"
    using guest act by (simp_all add: saveNotes_guest)
  have stored: "n \<in> set (getLocalDB NOTES (localStorage ?w1))"
    using guest act mem by (simp add: saveNotes_guest getLocalDB_save)
  have later: "n \<in> set (getLocalDB NOTES (localStorage (snd (saveNotes L' ?w1))))" for L'
    using w1 stored other by (simp add: saveNotes_guest getLocalDB_save)
  have seen: "\<exists>r. getNotes (setSession u v) = Inr r \<and> ItemDoc n \<in> set r"
    if "n \<in> set (getLocalDB NOTES (localStorage v))" for v :: "'a world"
  proof -
    have s: "isGuestMode (setSession u v)" "activeUser (setSession u v) = Some (userId n)"
      "getLocalDB NOTES (localStorage (setSession u v)) = getLocalDB NOTES (localStorage v)"
      using setSession_guest [of u v NOTES] u nonempty by simp_all
    show ?thesis
      using that s by (simp add: getNotes_guest getLocalUserItems_def)
  qed
  show ?thesis
    using stored later seen by blast
qed

theorem saveNotes_guest_foreign_record_witness:
  "isGuestMode guestWorld \<and> activeUser guestWorld = Some ''g1'' \<and> note3 \<in> set [note1, note3]
 \<and> userId note3 \<noteq> ''g1'' \<and> userId note3 \<noteq> [] \<and> id' guest2 = userId note3 \<and> isGuest guest2
 \<and> note3 \<in> set (getLocalDB NOTES (localStorage (snd (saveNotes [note1, note3] guestWorld))))
 \<and> (\<exists>r. getNotes (setSession guest2 (snd (saveNotes [note1, note3] guestWorld))) = Inr r
        \<and> ItemDoc note3 \<in> set r)
 \<and> note3 \<in> set (getLocalDB NOTES
      (localStorage (snd (saveNotes [] (snd (saveNotes [note1, note3] guestWorld))))))"
proof -
  have h: "isGuestMode guestWorld" "activeUser guestWorld = Some ''g1''"
    "note3 \<in> set [note1, note3]" "userId note3 \<noteq> ''g1''" "userId note3 \<noteq> []"
    "id' guest2 = userId note3" "isGuest guest2"
    by (simp_all add: guestWorld_def activeUser_def note3_def guest2_def)
  show ?thesis
    using h saveNotes_guest_foreign_record [OF h] by simp
qed

text \<open>
  Claim C7. In authenticated mode, with the remote store reachable, \<^verbatim>\<open>saveSummaries([a])\<close>
  followed by \<^verbatim>\<open>saveSummaries([b])\<close> for \<open>a\<close> and \<open>b\<close> of distinct ids both return, and
  \<^verbatim>\<open>getSummaries()\<close> then contains both \<open>a\<close> and \<open>b\<close>. The saves set the documents of the
  listed ids, so that \<open>a\<close> and \<open>b\<close> are the documents of their paths, and delete nothing:
  every document that was stored under another path is still stored.
\<close>

theorem saveSummaries_remote_upsert:
  assumes act: "activeUser w = Some uid" and auth: "\<not> isGuestMode w" and up: "reachable (db w)"
    and ids: "id' a \<noteq> id' b"
  shows "\<exists>w1 w2 r. saveSummaries [a] w = (Inr (), w1) \<and> saveSummaries [b] w1 = (Inr (), w2)
           \<and> getSummaries w2 = Inr r \<and> ItemDoc a \<in> set r \<and> ItemDoc b \<in> set r
           \<and> map_of (docs (db w2)) (uid, ''summaries'', id' a) = Some (ItemDoc a)
           \<and> map_of (docs (db w2)) (uid, ''summaries'', id' b) = Some (ItemDoc b)
           \<and> (\<forall>p d. (p, d) \<in> set (docs (db w)) \<and> p \<noteq> (uid, ''summaries'', id' a)
                     \<and> p \<noteq> (uid, ''summaries'', id' b) \<longrightarrow> (p, d) \<in> set (docs (db w2)))"
proof -
  let ?pa = "(uid, ''summaries'', id' a)" and ?pb = "(uid, ''summaries'', id' b)"
  let ?d1 = "AList.update ?pa (ItemDoc a) (docs (db w))"
  let ?d2 = "AList.update ?pb (ItemDoc b) ?d1"
  let ?w1 = "w\<lparr>db := (db w)\<lparr>docs := ?d1\<rparr>\<rparr>"
  let ?w2 = "?w1\<lparr>db := (db ?w1)\<lparr>docs := ?d2\<rparr>\<rparr>"
  let ?mine = "\<lambda>((u, c, i), d). (u, c) = (uid, ''summaries'')"
  have s1: "saveSummaries [a] w = (Inr (), ?w1)"
    using saveSummaries_remote [OF act auth up, of "[a]"] by (simp add: applyWrites_def)
  have f1: "activeUser ?w1 = Some uid" "\<not> isGuestMode ?w1" "reachable (db ?w1)"
    using act auth up by simp_all
  have s2: "saveSummaries [b] ?w1 = (Inr (), ?w2)"
    using saveSummaries_remote [OF f1, of "[b]"] by (simp add: applyWrites_def)
  have f2: "activeUser ?w2 = Some uid" "\<not> isGuestMode ?w2" "reachable (db ?w2)"
    using act auth up by simp_all
  have ma: "(?pa, ItemDoc a) \<in> set ?d2"
    using ids by (intro update_mem_other update_mem_same) simp
  have mb: "(?pb, ItemDoc b) \<in> set ?d2"
    by (rule update_mem_same)
  have keep: "(p, d) \<in> set (docs (db w)) \<and> p \<noteq> ?pa \<and> p \<noteq> ?pb \<longrightarrow> (p, d) \<in> set ?d2" for p d
    by (auto intro: update_mem_other)
  have g: "getSummaries ?w2 = Inr (map snd (filter ?mine ?d2))"
    using getSummaries_remote [OF f2] by simp
  have ra: "ItemDoc a \<in> set (map snd (filter ?mine ?d2))"
    using ma by force
  have rb: "ItemDoc b \<in> set (map snd (filter ?mine ?d2))"
    using mb by force
  have k2: "\<forall>p d. (p, d) \<in> set (docs (db w)) \<and> p \<noteq> ?pa \<and> p \<noteq> ?pb \<longrightarrow> (p, d) \<in> set (docs (db ?w2))"
    using keep by simp
  have la: "map_of (docs (db ?w2)) ?pa = Some (ItemDoc a)"
    using ids by (simp add: update_conv')
  have lb: "map_of (docs (db ?w2)) ?pb = Some (ItemDoc b)"
    by (simp add: update_conv')
  show ?thesis
    using s1 s2 g ra rb la lb k2 by blast
qed

theorem saveSummaries_remote_upsert_witness:
  "activeUser authWorld = Some ''u1'' \<and> \<not> isGuestMode authWorld \<and> reachable (db authWorld)
 \<and> id' summary1 \<noteq> id' summary2
 \<and> (\<exists>w1 w2 r. saveSummaries [summary1] authWorld = (Inr (), w1)
        \<and> saveSummaries [summary2] w1 = (Inr (), w2)
        \<and> getSummaries w2 = Inr r \<and> ItemDoc summary1 \<in> set r \<and> ItemDoc summary2 \<in> set r)"
proof -
  have h: "activeUser authWorld = Some ''u1''" "\<not> isGuestMode authWorld"
    "reachable (db authWorld)" "id' summary1 \<noteq> id' summary2"
    by (simp_all add: authWorld_def activeUser_def summary1_def summary2_def)
  have "\<exists>w1 w2 r. saveSummaries [summary1] authWorld = (Inr (), w1)
        \<and> saveSummaries [summary2] w1 = (Inr (), w2)
        \<and> getSummaries w2 = Inr r \<and> ItemDoc summary1 \<in> set r \<and> ItemDoc summary2 \<in> set r"
    using saveSummaries_remote_upsert [OF h] by blast
  then show ?thesis
    using h by simp
qed

text \<open>
  Claim C8, as the code has it. \<^verbatim>\<open>loadCollection(name)\<close> returns the empty list when no user
  is active, in both modes, and in guest mode when the name is none of \<^verbatim>\<open>notes\<close>,
  \<^verbatim>\<open>summaries\<close>, \<^verbatim>\<open>queue\<close>, \<^verbatim>\<open>tasks\<close>, \<^verbatim>\<open>quizzes\<close>. In authenticated mode the name is not
  checked: the call returns the documents stored under \<^verbatim>\<open>users/{uid}/{name}\<close>, whatever the
  name, and is rejected when the remote store does not answer.
\<close>

theorem loadCollection_unknown_name:
  "(activeUser w = None \<longrightarrow> loadCollection cn w = Inr [])
 \<and> (isGuestMode w \<and> cn \<notin> {''notes'', ''summaries'', ''queue'', ''tasks'', ''quizzes''}
      \<longrightarrow> loadCollection cn w = Inr [])
 \<and> (activeUser w = Some uid \<and> \<not> isGuestMode w \<and> reachable (db w) \<longrightarrow>
      loadCollection cn w =
        Inr (map snd (filter (\<lambda>((u, c, i), d). (u, c) = (uid, cn)) (docs (db w)))))
 \<and> (activeUser w = Some uid \<and> \<not> isGuestMode w \<and> \<not> reachable (db w) \<longrightarrow>
      loadCollection cn w = Inl RemoteFailure)"
  by (auto simp: loadCollection_def getDocs_def keyMap_def split: option.splits)

theorem loadCollection_unknown_name_witness:
  "activeUser (guestWorld\<lparr>currentUserId := None\<rparr>) = None
 \<and> loadCollection ''notes'' (guestWorld\<lparr>currentUserId := None\<rparr>) = Inr []
 \<and> isGuestMode guestWorld
 \<and> ''data'' \<notin> {''notes'', ''summaries'', ''queue'', ''tasks'', ''quizzes''}
 \<and> loadCollection ''data'' guestWorld = Inr []
 \<and> activeUser authWorld = Some ''u1'' \<and> \<not> isGuestMode authWorld \<and> reachable (db authWorld)
 \<and> loadCollection ''archive'' authWorld = Inr []
 \<and> activeUser offlineWorld = Some ''u1'' \<and> \<not> isGuestMode offlineWorld
 \<and> \<not> reachable (db offlineWorld)
 \<and> loadCollection ''archive'' offlineWorld = Inl RemoteFailure"
proof -
  have n: "activeUser (guestWorld\<lparr>currentUserId := None\<rparr>) = None"
    by (simp add: activeUser_def)
  have g: "isGuestMode guestWorld"
    "''data'' \<notin> {''notes'', ''summaries'', ''queue'', ''tasks'', ''quizzes''}"
    by (simp_all add: guestWorld_def)
  have a: "activeUser authWorld = Some ''u1''" "\<not> isGuestMode authWorld" "reachable (db authWorld)"
    by (simp_all add: authWorld_def activeUser_def)
  have e: "docs (db authWorld) = []"
    by (simp add: authWorld_def)
  have off: "activeUser offlineWorld = Some ''u1''" "\<not> isGuestMode offlineWorld"
    "\<not> reachable (db offlineWorld)"
    by (simp_all add: offlineWorld_def activeUser_def)
  show ?thesis
    using n g a e off
      loadCollection_unknown_name [of "guestWorld\<lparr>currentUserId := None\<rparr>" "''notes''"]
      loadCollection_unknown_name [of guestWorld "''data''"]
      loadCollection_unknown_name [of authWorld "''archive''" "''u1''"]
      loadCollection_unknown_name [of offlineWorld "''archive''" "''u1''"]
    by simp
qed

text \<open>
  The claim as the specification states it fails in authenticated mode, for names that are
  none of the five: once \<^verbatim>\<open>getStats()\<close> has created the stats of the user \<open>u1\<close>,
  \<^verbatim>\<open>loadCollection('data')\<close> returns that record; and when the remote store does not answer,
  \<^verbatim>\<open>loadCollection('archive')\<close> is rejected.
\<close>

theorem loadCollection_unknown_name_counterexample:
  "''data'' \<notin> {''notes'', ''summaries'', ''queue'', ''tasks'', ''quizzes''}
 \<and> activeUser (snd (getStats day20000 authWorld)) = Some ''u1''
 \<and> loadCollection ''data'' (snd (getStats day20000 authWorld))
     = Inr [StatsDoc (createEmptyStats ''u1'' day20000)]
 \<and> loadCollection ''data'' (snd (getStats day20000 authWorld)) \<noteq> Inr []
 \<and> ''archive'' \<notin> {''notes'', ''summaries'', ''queue'', ''tasks'', ''quizzes''}
 \<and> activeUser offlineWorld = Some ''u1''
 \<and> loadCollection ''archive'' offlineWorld = Inl RemoteFailure
 \<and> loadCollection ''archive'' offlineWorld \<noteq> Inr []"
proof -
  have stats: "snd (getStats day20000 authWorld)
      = authWorld\<lparr>db := \<lparr>docs = [((''u1'', ''data'', ''stats''),
                                     StatsDoc (createEmptyStats ''u1'' day20000))],
                           reachable = True\<rparr>\<rparr>"
    by (simp add: authWorld_def getStats_def activeUser_def getDoc_def setDoc_def statsRef_def
        Let_def)
  have on: "loadCollection ''data'' (snd (getStats day20000 authWorld))
      = Inr [StatsDoc (createEmptyStats ''u1'' day20000)]"
    unfolding stats
    by (simp add: authWorld_def activeUser_def loadCollection_def getDocs_def)
  have act: "activeUser (snd (getStats day20000 authWorld)) = Some ''u1''"
    unfolding stats by (simp add: authWorld_def activeUser_def)
  have off: "loadCollection ''archive'' offlineWorld = Inl RemoteFailure"
    "activeUser offlineWorld = Some ''u1''"
    by (simp_all add: offlineWorld_def activeUser_def loadCollection_def getDocs_def)
  show ?thesis
    using on act off by simp
qed

end
